theory Spec2Isabelle
  imports Main "HOL-Library.AList" "HOL-Library.Word"
begin

section \<open>Binary layout documentation: type resolution and table projection\<close>

text \<open>
  A shallow embedding of \<^verbatim>\<open>src/build/render/components/structs/index.js\<close>.

  JavaScript objects loaded from YAML are modelled as records whose optional keys are
  \<open>option\<close> values: \<open>None\<close> is an absent key (reads as \<^verbatim>\<open>undefined\<close>), \<open>Some v\<close> a
  key holding a value of the expected type. Sizes and counts are integers (\<open>int\<close>);
  type names and placeholders are strings. A number is falsy exactly when it is \<open>0\<close>, a
  string exactly when it is empty, and every object or array is truthy.
  An object used as a dictionary (\<^verbatim>\<open>typeArgs\<close>) is an association list with distinct,
  non-numeric keys in insertion order, which is the order \<^verbatim>\<open>Object.values\<close>
  and \<^verbatim>\<open>Object.entries\<close> enumerate; a lookup finds the object's own keys only.

  The recursion of the source is unbounded on a cyclic schema. The recursive functions
  take a recursion depth and return \<open>None\<close> when it is used up; a result reached at one
  depth is the result at every greater depth (\<open>instantiateType_mono\<close>).
\<close>

subsection \<open>Errors\<close>

text \<open>
  Every \<^verbatim>\<open>throw\<close> of the source and every runtime exception of the engine that the
  modelled paths can raise:
  \<^item> \<open>UnresolvedType n\<close>: \<^verbatim>\<open>Failed to resolve type ${typeName}\<close>;
  \<^item> \<open>UnresolvableSize n e\<close>: \<^verbatim>\<open>Failed to determine size of type ${typeName} (entry ${entryType})\<close>;
  \<^item> \<open>SizeAssertion n t a\<close>: \<^verbatim>\<open>Type ${typeName} size did not match assertion: ${totalSize} != ${typeDef.assertSize}\<close>;
  \<^item> \<open>UnhandledTypeClass c\<close>: \<^verbatim>\<open>Unhandled type class: ${...}\<close>;
  \<^item> \<open>TypeError\<close>: spreading or mapping over an \<^verbatim>\<open>undefined\<close> property;
  \<^item> \<open>ReferenceError v\<close>: reading the undeclared variable \<open>v\<close>.
\<close>

datatype error =
    UnresolvedType string
  | UnresolvableSize string string
  | SizeAssertion string int int
  | UnhandledTypeClass string
  | TypeError
  | ReferenceError string

text \<open>
  A computation either runs out of fuel (\<open>None\<close>: the source has not returned within the
  recursion depth allowed), throws (\<open>Some (Inl e)\<close>) or returns (\<open>Some (Inr v)\<close>).
\<close>

type_synonym 'a result = "(error + 'a) option"

definition throw :: "error \<Rightarrow> 'a result" where
  "throw e = Some (Inl e)"

definition ok :: "'a \<Rightarrow> 'a result" where
  "ok v = Some (Inr v)"

definition bindR :: "'a result \<Rightarrow> ('a \<Rightarrow> 'b result) \<Rightarrow> 'b result" where
  "bindR m f = (case m of None \<Rightarrow> None | Some (Inl e) \<Rightarrow> Some (Inl e) | Some (Inr v) \<Rightarrow> f v)"

subsection \<open>Data model\<close>

type_synonym typeArgs = "(string \<times> string) list"

text \<open>A parameter set \<^verbatim>\<open>{type, typeArgs, size, count}\<close>: an instantiation request.\<close>

record typeParams =
  p_type :: string
  p_typeArgs :: "typeArgs option"
  p_size :: "int option"
  p_count :: "int option"

text \<open>A struct field: a parameter set with a name, labels and per-language comments.\<close>

record field = typeParams +
  f_name :: "string option"
  f_labels :: "string list option"
  f_comments :: "(string \<times> string) list option"

record bit =
  b_name :: "string option"
  b_labels :: "string list option"
  b_comments :: "(string \<times> string) list option"

record enumOption =
  o_name :: "string option"
  o_value :: "int option"
  o_labels :: "string list option"
  o_comments :: "(string \<times> string) list option"

text \<open>
  A type definition, with every key any of the five kinds may carry. An alias keeps
  its target parameter set in \<open>td_type\<close>, \<open>td_typeArgs\<close>, \<open>td_size\<close>, \<open>td_count\<close>.
\<close>

record typeDef =
  td_class :: "string option"
  td_size :: "int option"
  td_args :: "string list option"
  td_endianness :: "string option"
  td_type :: "string option"
  td_typeArgs :: "typeArgs option"
  td_count :: "int option"
  td_extends :: "typeParams option"
  td_fields :: "field list option"
  td_assertSize :: "int option"
  td_bits :: "bit list option"
  td_options :: "enumOption list option"
  td_labels :: "string list option"
  td_comments :: "(string \<times> string) list option"

text \<open>The object \<^verbatim>\<open>{typeDef, totalSize, singleSize, variableSize, count, typeArgs, typeName}\<close>.\<close>

record instantiated =
  it_typeDef :: typeDef
  it_totalSize :: int
  it_singleSize :: int
  it_variableSize :: "int option"
  it_count :: "int option"
  it_typeArgs :: "typeArgs option"
  it_typeName :: string

subsection \<open>The type registry\<close>

definition noDef :: typeDef where
  "noDef = \<lparr>td_class = None, td_size = None, td_args = None, td_endianness = None,
     td_type = None, td_typeArgs = None, td_count = None, td_extends = None,
     td_fields = None, td_assertSize = None, td_bits = None, td_options = None,
     td_labels = None, td_comments = None\<rparr>"

definition prim :: "int \<Rightarrow> typeDef" where
  "prim n = noDef\<lparr>td_size := Some n\<rparr>"

definition INTRINSIC_TYPE_DEFS :: "(string \<times> typeDef) list" where
  "INTRINSIC_TYPE_DEFS =
    [(''byte'', prim 1), (''bool'', prim 1), (''char'', prim 1), (''uint8'', prim 1),
     (''int8'', prim 1), (''uint16'', prim 2), (''int16'', prim 2), (''int32'', prim 4),
     (''uint32'', prim 4), (''int64'', prim 8), (''uint64'', prim 8), (''float'', prim 4),
     (''double'', prim 8),
     (''pad'', noDef), (''UTF-8'', noDef), (''UTF-16'', noDef),
     (''ptr32'', noDef\<lparr>td_size := Some 4, td_args := Some [''T'']\<rparr>),
     (''ptr64'', noDef\<lparr>td_size := Some 8, td_args := Some [''T'']\<rparr>)]"

text \<open>
  \<^verbatim>\<open>typeDefs = {...INTRINSIC_TYPE_DEFS, ...typeDefs}\<close>: the user's definitions shadow the
  intrinsic ones. The user's overlay is the association list read from YAML.
\<close>

definition populate :: "(string \<times> typeDef) list \<Rightarrow> string \<Rightarrow> typeDef option" where
  "populate userDefs = map_of INTRINSIC_TYPE_DEFS ++ map_of userDefs"

subsection \<open>Generic substitution\<close>

text \<open>\<^verbatim>\<open>typeArgs[v] || v\<close>: a binding that is missing or the empty string leaves \<open>v\<close>.\<close>

definition bound :: "typeArgs \<Rightarrow> string \<Rightarrow> string" where
  "bound typeArgs v = (case map_of typeArgs v of None \<Rightarrow> v | Some w \<Rightarrow> if w = [] then v else w)"

definition processGenerics ::
  "'a typeParams_scheme \<Rightarrow> typeArgs option \<Rightarrow> 'a typeParams_scheme" where
  "processGenerics genericParams typeArgs =
    (case typeArgs of
       None \<Rightarrow> genericParams
     | Some ta \<Rightarrow> genericParams\<lparr>
         p_type := bound ta (p_type genericParams),
         p_typeArgs := (case p_typeArgs genericParams of
                          None \<Rightarrow> None
                        | Some gta \<Rightarrow> Some (map (\<lambda>(k, v). (k, bound ta v)) gta))\<rparr>)"

subsection \<open>The type instantiator\<close>

text \<open>
  \<^verbatim>\<open>{...typeParams, ...typeDef}\<close> as the instantiator reads it back: a key of the alias
  definition wins over the request's. Only \<^verbatim>\<open>type\<close>, \<^verbatim>\<open>typeArgs\<close>, \<^verbatim>\<open>size\<close> and
  \<^verbatim>\<open>count\<close> of the merged object are ever read.
\<close>

definition spread :: "'a option \<Rightarrow> 'a option \<Rightarrow> 'a option" where
  "spread lower upper = (case upper of None \<Rightarrow> lower | Some v \<Rightarrow> Some v)"

definition spreadParams :: "typeParams \<Rightarrow> typeDef \<Rightarrow> typeParams" where
  "spreadParams typeParams td =
    \<lparr>p_type = (case td_type td of None \<Rightarrow> p_type typeParams | Some t \<Rightarrow> t),
     p_typeArgs = spread (p_typeArgs typeParams) (td_typeArgs td),
     p_size = spread (p_size typeParams) (td_size td),
     p_count = spread (p_count typeParams) (td_count td)\<rparr>"

text \<open>
  \<^verbatim>\<open>{...parentTypeDef, ...typeDef, fields: [...parentTypeDef.fields, ...typeDef.fields]}\<close>.
  Spreading an \<^verbatim>\<open>undefined\<close> field list is a TypeError.
\<close>

definition mergeTypeDef :: "typeDef \<Rightarrow> typeDef \<Rightarrow> error + typeDef" where
  "mergeTypeDef parentTypeDef td =
    (case td_fields parentTypeDef of
       None \<Rightarrow> Inl TypeError
     | Some pfs \<Rightarrow>
        (case td_fields td of
           None \<Rightarrow> Inl TypeError
         | Some cfs \<Rightarrow> Inr
            \<lparr>td_class = spread (td_class parentTypeDef) (td_class td),
             td_size = spread (td_size parentTypeDef) (td_size td),
             td_args = spread (td_args parentTypeDef) (td_args td),
             td_endianness = spread (td_endianness parentTypeDef) (td_endianness td),
             td_type = spread (td_type parentTypeDef) (td_type td),
             td_typeArgs = spread (td_typeArgs parentTypeDef) (td_typeArgs td),
             td_count = spread (td_count parentTypeDef) (td_count td),
             td_extends = spread (td_extends parentTypeDef) (td_extends td),
             td_fields = Some (pfs @ cfs),
             td_assertSize = spread (td_assertSize parentTypeDef) (td_assertSize td),
             td_bits = spread (td_bits parentTypeDef) (td_bits td),
             td_options = spread (td_options parentTypeDef) (td_options td),
             td_labels = spread (td_labels parentTypeDef) (td_labels td),
             td_comments = spread (td_comments parentTypeDef) (td_comments td)\<rparr>))"

text \<open>A number is truthy when it is present and not zero.\<close>

definition truthy :: "int option \<Rightarrow> bool" where
  "truthy v = (case v of None \<Rightarrow> False | Some n \<Rightarrow> n \<noteq> 0)"

text \<open>\<^verbatim>\<open>v || d\<close> for a number or \<^verbatim>\<open>undefined\<close> on the left.\<close>

definition falsyOr :: "int option \<Rightarrow> int \<Rightarrow> int" where
  "falsyOr v d = (if truthy v then the v else d)"

text \<open>
  \<^verbatim>\<open>fields.reduce((s, f) => instantiateType(processGenerics(f, typeArgs)).totalSize + s, 0)\<close>,
  over the instantiator \<open>inst\<close>. The instantiator destructures its argument, reading
  the four keys of a parameter set only (\<open>typeParams.truncate\<close>).
\<close>

fun reduceFields ::
  "(typeParams \<Rightarrow> instantiated result) \<Rightarrow> typeArgs option \<Rightarrow> field list \<Rightarrow> int \<Rightarrow> int result" where
  "reduceFields inst typeArgs [] s = ok s"
| "reduceFields inst typeArgs (f # fs) s =
     bindR (inst (typeParams.truncate (processGenerics f typeArgs)))
       (\<lambda>r. reduceFields inst typeArgs fs (it_totalSize r + s))"

text \<open>
  Step 3 of the instantiator: a struct that declares \<^verbatim>\<open>extends\<close> is merged with its
  instantiated parent's definition; any other definition is kept.
\<close>

definition effectiveTypeDef ::
  "(typeParams \<Rightarrow> instantiated result) \<Rightarrow> typeArgs option \<Rightarrow> typeDef \<Rightarrow> typeDef result" where
  "effectiveTypeDef inst typeArgs td =
    (if td_class td = Some ''struct'' then
       (case td_extends td of
          None \<Rightarrow> ok td
        | Some ext \<Rightarrow>
            bindR (inst (processGenerics ext typeArgs))
              (\<lambda>parent. Some (mergeTypeDef (it_typeDef parent) td)))
     else ok td)"

text \<open>
  \<^verbatim>\<open>size || typeDef.size || (typeDef.class == "struct" && typeDef.fields.reduce(...)) || undefined\<close>,
  evaluated left to right and lazily; \<open>ok None\<close> is the value \<^verbatim>\<open>undefined\<close>.
\<close>

definition determineSize ::
  "(typeParams \<Rightarrow> instantiated result) \<Rightarrow> typeArgs option \<Rightarrow> int option \<Rightarrow> typeDef \<Rightarrow> int option result" where
  "determineSize inst typeArgs explicitSize td =
    (if truthy explicitSize then ok explicitSize
     else if truthy (td_size td) then ok (td_size td)
     else if td_class td = Some ''struct'' then
       (case td_fields td of
          None \<Rightarrow> throw TypeError
        | Some fs \<Rightarrow> bindR (reduceFields inst typeArgs fs 0)
            (\<lambda>s. if s \<noteq> 0 then ok (Some s) else ok None))
     else ok None)"

text \<open>Lines 141 to 146: the total size, the size assertion and the returned object.\<close>

definition finish ::
  "typeParams \<Rightarrow> typeDef \<Rightarrow> int \<Rightarrow> instantiated result" where
  "finish typeParams td singleSize =
    (let totalSize = singleSize * falsyOr (p_count typeParams) 1
     in if truthy (td_assertSize td) \<and> totalSize \<noteq> the (td_assertSize td)
        then throw (SizeAssertion (p_type typeParams) totalSize (the (td_assertSize td)))
        else ok \<lparr>it_typeDef = td, it_totalSize = totalSize, it_singleSize = singleSize,
                 it_variableSize = p_size typeParams, it_count = p_count typeParams,
                 it_typeArgs = p_typeArgs typeParams, it_typeName = p_type typeParams\<rparr>)"

text \<open>
  \<^verbatim>\<open>instantiateType\<close>, over the registry \<open>typeDefs\<close> and the entry type name (which only
  the size diagnostic mentions). The source recurses without bound on a cyclic
  schema; the first argument bounds the recursion depth.
\<close>

fun instantiateType ::
  "nat \<Rightarrow> (string \<Rightarrow> typeDef option) \<Rightarrow> string \<Rightarrow> typeParams \<Rightarrow> instantiated result" where
  "instantiateType 0 typeDefs entryType typeParams = None"
| "instantiateType (Suc n) typeDefs entryType typeParams =
    (case typeDefs (p_type typeParams) of
       None \<Rightarrow> throw (UnresolvedType (p_type typeParams))
     | Some td \<Rightarrow>
        if td_class td = Some ''alias'' then
          instantiateType n typeDefs entryType
            (processGenerics (spreadParams typeParams td) (p_typeArgs typeParams))
        else
          bindR (effectiveTypeDef (instantiateType n typeDefs entryType) (p_typeArgs typeParams) td)
            (\<lambda>td'. bindR (determineSize (instantiateType n typeDefs entryType)
                             (p_typeArgs typeParams) (p_size typeParams) td')
              (\<lambda>singleSize.
                 case singleSize of
                   None \<Rightarrow> throw (UnresolvableSize (p_type typeParams) entryType)
                 | Some s \<Rightarrow> finish typeParams td' s)))"

subsection \<open>The document tree\<close>

text \<open>
  The markup templates are kept as a tree that holds the value of every template hole,
  before \<^verbatim>\<open>escapeHtml\<close>, \<^verbatim>\<open>slugify\<close>, \<^verbatim>\<open>localize\<close> and \<^verbatim>\<open>renderMarkdown\<close> (code of
  other modules) turn it into text.
\<close>

type_synonym pathId = "string list option"

text \<open>
  \<^verbatim>\<open>seenTypes\<close>, an object used as a dictionary: a key is absent, holds \<^verbatim>\<open>null\<close>
  (\<open>None\<close>) or holds the path of a field (\<open>Some p\<close>). Keys are distinct; an assignment
  replaces the value of a key that is there (\<open>AList.update\<close>).
\<close>

type_synonym seenTypes = "(string \<times> pathId) list"

text \<open>The three results of \<^verbatim>\<open>renderFieldName\<close>: nothing, the bare name, the anchored name.\<close>

datatype fieldName = NoName | PlainName string | AnchoredName string "string list"

record renderedComments =
  rc_labels :: "string list option"
  rc_text :: "string option"

text \<open>
  The type cell of a row: the \<^verbatim>\<open>title\<close> attribute (\<open>totalSize\<close> bytes), the type string
  and the endianness badge.
\<close>

record typeCell =
  tc_title :: int
  tc_typeStr :: string
  tc_endian :: "string option"

datatype doc =
    StructDoc renderedComments "row list"
  | BitfieldDoc renderedComments "(fieldName \<times> int \<times> renderedComments) list"
  | EnumDoc renderedComments "(fieldName \<times> int \<times> renderedComments) list"
and row =
    Row (row_classes: "string list") (row_name: fieldName) (row_offset: "int option")
        (row_type: typeCell) (row_backref: "string list option")
        (row_comments: renderedComments) (row_embedded: "doc option")

text \<open>The variables the rendering functions close over.\<close>

record env =
  typeDefs :: "string \<Rightarrow> typeDef option"
  entryType :: string
  showOffsets :: bool
  lang :: string

subsection \<open>Rendering helpers\<close>

definition joinPathId :: "pathId \<Rightarrow> string option \<Rightarrow> pathId" where
  "joinPathId pathId nxt =
    (case pathId of
       None \<Rightarrow> None
     | Some p \<Rightarrow> (case nxt of None \<Rightarrow> None | Some n \<Rightarrow> if n = [] then None else Some (p @ [n])))"

text \<open>Decimal text of a number, as a template literal prints an integer.\<close>

fun showNat :: "nat \<Rightarrow> string" where
  "showNat n = (if n < 10 then [char_of (48 + n)] else showNat (n div 10) @ [char_of (48 + n mod 10)])"

declare showNat.simps [simp del]

definition showInt :: "int \<Rightarrow> string" where
  "showInt i = (if i < 0 then CHR ''-'' # showNat (nat (- i)) else showNat (nat i))"

text \<open>\<^verbatim>\<open>Array.prototype.join\<close>.\<close>

fun joinWith :: "string \<Rightarrow> string list \<Rightarrow> string" where
  "joinWith sep [] = []"
| "joinWith sep [x] = x"
| "joinWith sep (x # y # ys) = x @ sep @ joinWith sep (y # ys)"

definition renderComments ::
  "string \<Rightarrow> string list option \<Rightarrow> (string \<times> string) list option \<Rightarrow> renderedComments" where
  "renderComments lng labels comments =
    \<lparr>rc_labels = labels,
     rc_text = (case comments of
                  None \<Rightarrow> None
                | Some c \<Rightarrow> (case map_of c lng of
                              None \<Rightarrow> None
                            | Some t \<Rightarrow> if t = [] then None else Some t))\<rparr>"

definition renderStructFieldType :: "instantiated \<Rightarrow> typeCell" where
  "renderStructFieldType it =
    (let cls = td_class (it_typeDef it);
         s0 = it_typeName it;
         s1 = (if cls = Some ''bitfield'' \<or> cls = Some ''enum''
               then s0 @ '': '' @ the cls @ showInt (it_singleSize it * 8) else s0);
         s2 = (case it_typeArgs it of
                 None \<Rightarrow> s1
               | Some ta \<Rightarrow> s1 @ ''<'' @ joinWith '', '' (map snd ta) @ ''>'');
         s3 = (case it_variableSize it of
                 None \<Rightarrow> s2
               | Some v \<Rightarrow> s2 @ ''('' @ showInt v @ '')'');
         s4 = (case it_count it of
                 None \<Rightarrow> s3
               | Some c \<Rightarrow> s3 @ ''['' @ showInt c @ '']'')
     in \<lparr>tc_title = it_totalSize it,
         tc_typeStr = s4,
         tc_endian = (case td_endianness (it_typeDef it) of
                        None \<Rightarrow> None
                      | Some en \<Rightarrow> Some (if en = ''little'' then ''LE''
                                         else if en = ''big'' then ''BE'' else ''LE/BE''))\<rparr>)"

definition renderFieldName :: "string option \<Rightarrow> pathId \<Rightarrow> fieldName" where
  "renderFieldName fieldName pathId =
    (case fieldName of
       None \<Rightarrow> NoName
     | Some n \<Rightarrow>
        if n = [] then NoName
        else (case pathId of None \<Rightarrow> PlainName n | Some p \<Rightarrow> AnchoredName n p))"

subsection \<open>The cross-reference tracker and the struct table\<close>

text \<open>
  \<^verbatim>\<open>`${fieldTypeName}<${fieldTypeArgs && Object.values(fieldTypeArgs).join(",")}>`\<close>:
  absent type arguments print as \<^verbatim>\<open>undefined\<close>.
\<close>

definition seenTypeId :: "instantiated \<Rightarrow> string" where
  "seenTypeId ift =
    it_typeName ift @ ''<'' @
      (case it_typeArgs ift of None \<Rightarrow> ''undefined'' | Some ta \<Rightarrow> joinWith '','' (map snd ta))
      @ ''>''"

text \<open>\<^verbatim>\<open>const hasSeenType = seenTypes[seenTypeId]\<close>, as its truthiness reads it.\<close>

definition hasSeen :: "seenTypes \<Rightarrow> string \<Rightarrow> string list option" where
  "hasSeen seen sid = (case map_of seen sid of Some (Some p) \<Rightarrow> Some p | _ \<Rightarrow> None)"

definition classTruthy :: "string option \<Rightarrow> bool" where
  "classTruthy c = (case c of None \<Rightarrow> False | Some s \<Rightarrow> s \<noteq> [])"

text \<open>
  Lines 231 to 236: the field's own instantiation when its definition has a class, the
  instantiated pointee of a pointer intrinsic, nothing otherwise.
  \<^verbatim>\<open>Object.values(undefined)\<close> is a TypeError; the first value of an empty object is
  \<^verbatim>\<open>undefined\<close>, which the registry lookup reads as the key \<^verbatim>\<open>"undefined"\<close>.
\<close>

definition embeddedTypeOf ::
  "(typeParams \<Rightarrow> instantiated result) \<Rightarrow> instantiated \<Rightarrow> instantiated option result" where
  "embeddedTypeOf inst ift =
    (if classTruthy (td_class (it_typeDef ift)) then ok (Some ift)
     else if it_typeName ift = ''ptr32'' \<or> it_typeName ift = ''ptr64'' then
       (case it_typeArgs ift of
          None \<Rightarrow> throw TypeError
        | Some ta \<Rightarrow>
            bindR (inst \<lparr>p_type = (case map snd ta of [] \<Rightarrow> ''undefined'' | v # _ \<Rightarrow> v),
                          p_typeArgs = None, p_size = None, p_count = None\<rparr>)
              (\<lambda>e. ok (Some e)))
     else ok None)"

definition rowClasses :: "field \<Rightarrow> typeDef \<Rightarrow> string list" where
  "rowClasses fld fieldTypeDef =
    [''struct-field'', ''field-type-'' @ p_type fld]
    @ (case f_labels fld of None \<Rightarrow> [] | Some ls \<Rightarrow> map (\<lambda>l. ''field-label-'' @ l) ls)
    @ (if classTruthy (td_class fieldTypeDef)
       then [''has-embedded-class-'' @ the (td_class fieldTypeDef)] else [])"

text \<open>
  The callback of \<^verbatim>\<open>fields.map\<close> in \<^verbatim>\<open>renderStructAsTable\<close>. The variables it
  mutates, \<^verbatim>\<open>offset\<close> and \<^verbatim>\<open>seenTypes\<close>, are passed in and returned. \<open>rt\<close> is
  \<^verbatim>\<open>renderTypeAsTable\<close> and \<open>inst\<close> is \<^verbatim>\<open>instantiateType\<close>.
\<close>

definition renderField ::
  "(seenTypes \<Rightarrow> instantiated \<Rightarrow> pathId \<Rightarrow> (doc \<times> seenTypes) result) \<Rightarrow>
   (typeParams \<Rightarrow> instantiated result) \<Rightarrow> env \<Rightarrow> typeArgs option \<Rightarrow> pathId \<Rightarrow>
   field \<Rightarrow> int \<times> seenTypes \<Rightarrow> (row \<times> int \<times> seenTypes) result" where
  "renderField rt inst ev typeArgs pathId fld st =
    (let offset = fst st; seen = snd st;
         fieldPathId = joinPathId pathId (f_name fld);
         fieldOffset = offset
     in bindR (inst (typeParams.truncate (processGenerics fld typeArgs)))
       (\<lambda>ift.
          let offset' = offset + it_totalSize ift;
              sid = seenTypeId ift;
              hasSeenType = hasSeen seen sid;
              seen' = (if hasSeenType = None then AList.update sid fieldPathId seen else seen)
          in bindR (embeddedTypeOf inst ift)
            (\<lambda>embeddedType.
               let mk = (\<lambda>emb. Row (rowClasses fld (it_typeDef ift))
                           (renderFieldName (f_name fld) fieldPathId)
                           (if showOffsets ev then Some fieldOffset else None)
                           (renderStructFieldType ift)
                           (if embeddedType \<noteq> None then hasSeenType else None)
                           (renderComments (lang ev) (f_labels fld) (f_comments fld))
                           emb)
               in (case embeddedType of
                     None \<Rightarrow> ok (mk None, offset', seen')
                   | Some et \<Rightarrow>
                       if hasSeenType = None
                       then bindR (rt seen' et fieldPathId)
                              (\<lambda>(d, seen''). ok (mk (Some d), offset', seen''))
                       else ok (mk None, offset', seen')))))"

text \<open>\<^verbatim>\<open>fields.map(callback)\<close>, left to right, stopping at the first exception.\<close>

fun mapFields ::
  "(field \<Rightarrow> int \<times> seenTypes \<Rightarrow> (row \<times> int \<times> seenTypes) result) \<Rightarrow>
   field list \<Rightarrow> int \<times> seenTypes \<Rightarrow> (row list \<times> int \<times> seenTypes) result" where
  "mapFields cb [] st = ok ([], st)"
| "mapFields cb (f # fs) st =
     bindR (cb f st)
       (\<lambda>(r, st'). bindR (mapFields cb fs st') (\<lambda>(rs, st''). ok (r # rs, st'')))"

definition renderStructAsTable ::
  "(seenTypes \<Rightarrow> instantiated \<Rightarrow> pathId \<Rightarrow> (doc \<times> seenTypes) result) \<Rightarrow>
   (typeParams \<Rightarrow> instantiated result) \<Rightarrow> env \<Rightarrow> seenTypes \<Rightarrow> instantiated \<Rightarrow> pathId \<Rightarrow>
   (row list \<times> seenTypes) result" where
  "renderStructAsTable rt inst ev seen instantiatedType pathId =
    (case td_fields (it_typeDef instantiatedType) of
       None \<Rightarrow> throw TypeError
     | Some fs \<Rightarrow>
         bindR (mapFields (renderField rt inst ev (it_typeArgs instantiatedType) pathId) fs (0, seen))
           (\<lambda>(rows, st). ok (rows, snd st)))"

subsection \<open>Bitfield and enum tables\<close>

text \<open>
  \<^verbatim>\<open>0x1 << i\<close> is a 32-bit shift: the count is taken modulo 32 and the result is a
  signed 32-bit integer.
\<close>

definition renderBitfieldAsTable ::
  "env \<Rightarrow> instantiated \<Rightarrow> pathId \<Rightarrow> error + (fieldName \<times> int \<times> renderedComments) list" where
  "renderBitfieldAsTable ev instantiatedType pathId =
    (case td_bits (it_typeDef instantiatedType) of
       None \<Rightarrow> Inl TypeError
     | Some bits \<Rightarrow> Inr (map (\<lambda>(i, b).
         (renderFieldName (b_name b) (joinPathId pathId (b_name b)),
          sint (push_bit (i mod 32) (1 :: 32 word)),
          renderComments (lang ev) (b_labels b) (b_comments b))) (enumerate 0 bits)))"

definition renderEnumAsTable ::
  "env \<Rightarrow> instantiated \<Rightarrow> pathId \<Rightarrow> error + (fieldName \<times> int \<times> renderedComments) list" where
  "renderEnumAsTable ev instantiatedType pathId =
    (case td_options (it_typeDef instantiatedType) of
       None \<Rightarrow> Inl TypeError
     | Some opts \<Rightarrow> Inr (map (\<lambda>(i, opt).
         (renderFieldName (o_name opt) (joinPathId pathId (o_name opt)),
          (case o_value opt of None \<Rightarrow> int i | Some v \<Rightarrow> v),
          renderComments (lang ev) (o_labels opt) (o_comments opt))) (enumerate 0 opts)))"

subsection \<open>The projector\<close>

text \<open>
  \<^verbatim>\<open>renderTypeAsTable\<close>. The \<^verbatim>\<open>default\<close> branch of its \<^verbatim>\<open>switch\<close> builds the message
  \<^verbatim>\<open>`Unhandled type class: ${typeDef.class}`\<close>, and no variable \<^verbatim>\<open>typeDef\<close> is declared
  in that function, in \<^verbatim>\<open>renderStructYaml\<close> or in the module: evaluating the template
  raises a ReferenceError before the \<^verbatim>\<open>Error\<close> is constructed.
  The first argument bounds the depth of the recursion through embedded types.
\<close>

fun renderTypeAsTable ::
  "nat \<Rightarrow> env \<Rightarrow> seenTypes \<Rightarrow> instantiated \<Rightarrow> pathId \<Rightarrow> (doc \<times> seenTypes) result" where
  "renderTypeAsTable 0 ev seen instantiatedType pathId = None"
| "renderTypeAsTable (Suc n) ev seen instantiatedType pathId =
    (let cm = renderComments (lang ev) (td_labels (it_typeDef instantiatedType))
                (td_comments (it_typeDef instantiatedType));
         cls = td_class (it_typeDef instantiatedType)
     in if cls = Some ''struct'' then
          bindR (renderStructAsTable (renderTypeAsTable n ev)
                   (instantiateType n (typeDefs ev) (entryType ev)) ev seen instantiatedType pathId)
            (\<lambda>(rows, seen'). ok (StructDoc cm rows, seen'))
        else if cls = Some ''bitfield'' then
          (case renderBitfieldAsTable ev instantiatedType pathId of
             Inl e \<Rightarrow> throw e
           | Inr rows \<Rightarrow> ok (BitfieldDoc cm rows, seen))
        else if cls = Some ''enum'' then
          (case renderEnumAsTable ev instantiatedType pathId of
             Inl e \<Rightarrow> throw e
           | Inr rows \<Rightarrow> ok (EnumDoc cm rows, seen))
        else throw (ReferenceError ''typeDef''))"

text \<open>
  \<^verbatim>\<open>renderStructYaml\<close>, from the parsed options on: the registry is populated, the
  tracker starts empty (\<^verbatim>\<open>const seenTypes = {}\<close>), and the root path is \<^verbatim>\<open>[id || ""]\<close>.
\<close>

definition renderStructYaml ::
  "nat \<Rightarrow> string \<Rightarrow> (string \<times> typeDef) list \<Rightarrow> string \<Rightarrow> bool \<Rightarrow> string option \<Rightarrow> doc result" where
  "renderStructYaml n lng typeDefsArg entry showOffs rootId =
    (let ev = \<lparr>typeDefs = populate typeDefsArg, entryType = entry,
                showOffsets = showOffs, lang = lng\<rparr>
     in bindR (instantiateType n (typeDefs ev) entry
                \<lparr>p_type = entry, p_typeArgs = None, p_size = None, p_count = None\<rparr>)
          (\<lambda>it. bindR (renderTypeAsTable n ev [] it
                          (Some [case rootId of None \<Rightarrow> [] | Some i \<Rightarrow> i]))
                   (\<lambda>(d, seen). ok d)))"

subsection \<open>Notions used to state the properties\<close>

text \<open>
  \<^verbatim>\<open>v ?? d\<close>, the nullish default the specification writes for the count: only an
  absent value is replaced.
\<close>

definition nullish :: "int option \<Rightarrow> int \<Rightarrow> int" where
  "nullish v d = (case v of None \<Rightarrow> d | Some n \<Rightarrow> n)"

text \<open>
  One function agrees with another when it returns whatever the other returns: more
  recursion depth never changes an outcome already reached.
\<close>

definition agrees :: "('a \<Rightarrow> 'b option) \<Rightarrow> ('a \<Rightarrow> 'b option) \<Rightarrow> bool" where
  "agrees g f = (\<forall>p r. f p = Some r \<longrightarrow> g p = Some r)"

text \<open>
  The instantiation of a struct's field, as line 221 makes it: the type arguments of the
  struct are substituted, and the instantiator reads the four keys of a parameter set.
\<close>

definition fieldParams :: "typeArgs option \<Rightarrow> field \<Rightarrow> typeParams" where
  "fieldParams typeArgs fld = typeParams.truncate (processGenerics fld typeArgs)"


text \<open>
  Two outcomes of the instantiator are the same up to the echoed \<open>count\<close>: both run
  out of depth, both throw the same error, or both return objects that differ at most in
  their \<open>count\<close> key.
\<close>

definition sameSizes :: "instantiated result \<Rightarrow> instantiated result \<Rightarrow> bool" where
  "sameSizes a b =
    (case a of
       None \<Rightarrow> b = None
     | Some (Inl e) \<Rightarrow> b = Some (Inl e)
     | Some (Inr r) \<Rightarrow> (case b of Some (Inr r') \<Rightarrow> r\<lparr>it_count := None\<rparr> = r'\<lparr>it_count := None\<rparr> | _ \<Rightarrow> False))"

subsection \<open>Example schemas\<close>

definition req :: "string \<Rightarrow> typeParams" where
  "req t = \<lparr>p_type = t, p_typeArgs = None, p_size = None, p_count = None\<rparr>"

definition fld :: "string \<Rightarrow> string \<Rightarrow> field" where
  "fld n t = \<lparr>p_type = t, p_typeArgs = None, p_size = None, p_count = None,
     f_name = Some n, f_labels = None, f_comments = None\<rparr>"

definition unnamed :: "string \<Rightarrow> field" where
  "unnamed t = \<lparr>p_type = t, p_typeArgs = None, p_size = None, p_count = None,
     f_name = None, f_labels = None, f_comments = None\<rparr>"

definition struct :: "field list \<Rightarrow> typeDef" where
  "struct fs = noDef\<lparr>td_class := Some ''struct'', td_fields := Some fs\<rparr>"

definition flag :: "string \<Rightarrow> bit" where
  "flag n = \<lparr>b_name = Some n, b_labels = None, b_comments = None\<rparr>"

text \<open>
  The end-to-end example of the specification (\<open>Header\<close>, \<open>Flags\<close>), a struct with
  field sizes 4, 2, 1, 1, an empty struct, structs with size assertions, a child
  extending a parent, a generic struct behind two aliases, a struct with two fields of
  one type, a definition of an unknown class, an alias that carries a count, a struct
  with an array field, a struct with two fields that have no name, and a struct whose
  first field wraps the type of its two other fields.
\<close>

definition exampleDefs :: "(string \<times> typeDef) list" where
  "exampleDefs =
    [(''Header'', (struct [fld ''magic'' ''uint32'', fld ''flags'' ''Flags''])\<lparr>td_assertSize := Some 8\<rparr>),
     (''Flags'', noDef\<lparr>td_class := Some ''bitfield'', td_size := Some 4,
                       td_bits := Some [flag ''ready'', flag ''error'']\<rparr>),
     (''Quad'', struct [fld ''a'' ''uint32'', fld ''b'' ''uint16'', fld ''c'' ''uint8'', fld ''d'' ''byte'']),
     (''Empty'', struct []),
     (''Loose'', (struct [fld ''x'' ''uint32''])\<lparr>td_assertSize := Some 0\<rparr>),
     (''Wrong'', (struct [fld ''x'' ''uint32''])\<lparr>td_assertSize := Some 8\<rparr>),
     (''Parent'', (struct [fld ''id'' ''uint32''])\<lparr>td_assertSize := Some 4,
                    td_comments := Some [(''en'', ''base'')]\<rparr>),
     (''Child'', (struct [fld ''len'' ''uint16''])\<lparr>td_extends := Some (req ''Parent''),
                    td_assertSize := Some 6, td_comments := Some [(''en'', ''derived'')]\<rparr>),
     (''Box'', struct [fld ''value'' ''T'']),
     (''BoxB'', noDef\<lparr>td_class := Some ''alias'', td_type := Some ''Box'',
                      td_typeArgs := Some [(''T'', ''U'')]\<rparr>),
     (''BoxA'', noDef\<lparr>td_class := Some ''alias'', td_type := Some ''BoxB'',
                      td_typeArgs := Some [(''U'', ''V'')]\<rparr>),
     (''Pair'', struct [fld ''first'' ''Flags'', fld ''second'' ''Flags'']),
     (''Union'', noDef\<lparr>td_class := Some ''union'', td_size := Some 4\<rparr>),
     (''Five'', noDef\<lparr>td_class := Some ''alias'', td_type := Some ''uint32'', td_count := Some 5\<rparr>),
     (''Arr'', struct [(fld ''items'' ''uint32'')\<lparr>p_count := Some 3\<rparr>, fld ''n'' ''uint16'']),
     (''Anon'', struct [unnamed ''Flags'', unnamed ''Flags'']),
     (''Wrapper'', struct [fld ''x'' ''Flags'']),
     (''Outer'', struct [fld ''w'' ''Wrapper'', fld ''b'' ''Flags'', fld ''c'' ''Flags''])]"

text \<open>The closed-over variables of a render call on the example schemas, offsets enabled.\<close>

definition exampleEnv :: "string \<Rightarrow> env" where
  "exampleEnv entry = \<lparr>typeDefs = populate exampleDefs, entryType = entry,
     showOffsets = True, lang = ''en''\<rparr>"

text \<open>The instantiated entry type of a render call on the example schemas.\<close>

definition exampleEntry :: "string \<Rightarrow> instantiated" where
  "exampleEntry entry = projr (the (instantiateType 3 (populate exampleDefs) entry (req entry)))"


text \<open>
  The request's own count reaches the size arithmetic: no alias definition resolved on
  the way, within the recursion depth, carries a count of its own.
\<close>

fun keepsCount :: "nat \<Rightarrow> (string \<Rightarrow> typeDef option) \<Rightarrow> typeParams \<Rightarrow> bool" where
  "keepsCount 0 D p = True"
| "keepsCount (Suc n) D p =
    (case D (p_type p) of
       None \<Rightarrow> True
     | Some td \<Rightarrow>
        if td_class td = Some ''alias''
        then td_count td = None \<and>
             keepsCount n D (processGenerics (spreadParams p td) (p_typeArgs p))
        else True)"


text \<open>The rows of a struct table.\<close>

fun docRows :: "doc \<Rightarrow> row list" where
  "docRows (StructDoc cm rows) = rows"
| "docRows (BitfieldDoc cm flags) = []"
| "docRows (EnumDoc cm opts) = []"

text \<open>The rows of the root table of a render call on the example schemas.\<close>

definition exampleRows :: "string \<Rightarrow> row list" where
  "exampleRows entry =
    docRows (fst (projr (the (renderTypeAsTable 3 (exampleEnv entry) [] (exampleEntry entry)
                                (Some [[]])))))"


section \<open>Properties\<close>

subsection \<open>Outcomes\<close>

lemma bindR_None [simp]: "bindR None f = None"
  by (simp add: bindR_def)

lemma bindR_Inl [simp]: "bindR (Some (Inl e)) f = Some (Inl e)"
  by (simp add: bindR_def)

lemma bindR_Inr [simp]: "bindR (Some (Inr v)) f = f v"
  by (simp add: bindR_def)

lemma bindR_ok [simp]: "bindR (ok v) f = f v"
  by (simp add: ok_def)

lemma bindR_throw [simp]: "bindR (throw e) f = throw e"
  by (simp add: throw_def)

lemma outcome_simps [simp]: "ok v \<noteq> None" "ok v \<noteq> throw e" "throw e \<noteq> ok v" "throw e \<noteq> None"
  "(ok v = ok w) = (v = w)" "(throw e = throw e') = (e = e')"
  "(ok v = Some (Inr w)) = (v = w)" "(Some (Inr w) = ok v) = (w = v)"
  "ok v \<noteq> Some (Inl e)" "Some (Inl e) \<noteq> ok v"
  "throw e \<noteq> Some (Inr v)" "Some (Inr v) \<noteq> throw e"
  by (auto simp: ok_def throw_def)

lemma bindR_eq_Inr:
  "bindR m f = Some (Inr y) \<longleftrightarrow> (\<exists>v. m = Some (Inr v) \<and> f v = Some (Inr y))"
  by (auto simp: bindR_def split: option.splits sum.splits)

lemma bindR_eq_ok:
  "bindR m f = ok y \<longleftrightarrow> (\<exists>v. m = ok v \<and> f v = ok y)"
  by (simp add: ok_def bindR_eq_Inr)

lemma bindR_eq_Some:
  "bindR m f = Some r \<longleftrightarrow>
     (\<exists>e. m = Some (Inl e) \<and> r = Inl e) \<or> (\<exists>v. m = Some (Inr v) \<and> f v = Some r)"
  by (auto simp: bindR_def split: option.splits sum.splits)

lemma agreesD: "agrees g f \<Longrightarrow> f p = Some r \<Longrightarrow> g p = Some r"
  by (simp add: agrees_def)

subsection \<open>Recursion depth\<close>

lemma reduceFields_agrees:
  "agrees g f \<Longrightarrow> reduceFields f ta fs s = Some r \<Longrightarrow> reduceFields g ta fs s = Some r"
proof (induction fs arbitrary: s)
  case Nil
  then show ?case by simp
next
  case (Cons x xs)
  from Cons.prems(2) show ?case
    by (auto simp: bindR_eq_Some dest: agreesD [OF Cons.prems(1)] Cons.IH [OF Cons.prems(1)])
qed

lemma effectiveTypeDef_agrees:
  "agrees g f \<Longrightarrow> effectiveTypeDef f ta td = Some r \<Longrightarrow> effectiveTypeDef g ta td = Some r"
  by (auto simp: effectiveTypeDef_def bindR_eq_Some split: if_splits option.splits dest: agreesD)

lemma determineSize_agrees:
  "agrees g f \<Longrightarrow> determineSize f ta sz td = Some r \<Longrightarrow> determineSize g ta sz td = Some r"
  by (auto simp: determineSize_def bindR_eq_Some split: if_splits option.splits
        dest: reduceFields_agrees)

lemma instantiateType_Suc:
  "instantiateType n D e p = Some r \<Longrightarrow> instantiateType (Suc n) D e p = Some r"
proof (induction n arbitrary: p r)
  case 0
  then show ?case by simp
next
  case (Suc n)
  have ext: "agrees (instantiateType (Suc n) D e) (instantiateType n D e)"
    unfolding agrees_def using Suc.IH by blast
  show ?case
  proof (cases "D (p_type p)")
    case None
    with Suc.prems show ?thesis by simp
  next
    case (Some td)
    show ?thesis
    proof (cases "td_class td = Some ''alias''")
      case True
      with Some Suc.prems Suc.IH show ?thesis by simp
    next
      case False
      with Some Suc.prems show ?thesis
        by (auto simp: bindR_eq_Some simp del: instantiateType.simps(2)
            simp add: instantiateType.simps(2) [of n] instantiateType.simps(2) [of "Suc n"]
            dest!: effectiveTypeDef_agrees [OF ext] determineSize_agrees [OF ext])
    qed
  qed
qed

lemma instantiateType_mono:
  "n \<le> m \<Longrightarrow> instantiateType n D e p = Some r \<Longrightarrow> instantiateType m D e p = Some r"
  by (induction m) (auto simp: le_Suc_eq dest: instantiateType_Suc simp del: instantiateType.simps)

lemma instantiateType_deterministic:
  assumes "instantiateType n D e p = Some r" "instantiateType m D e p = Some r'"
  shows "r = r'"
proof -
  have "instantiateType (max n m) D e p = Some r"
    using assms(1) by (rule instantiateType_mono [rotated]) simp
  moreover have "instantiateType (max n m) D e p = Some r'"
    using assms(2) by (rule instantiateType_mono [rotated]) simp
  ultimately show ?thesis by simp
qed

subsection \<open>The steps of the instantiator\<close>

lemma finish_ok:
  "finish p td s = ok r \<longleftrightarrow>
     (\<not> (truthy (td_assertSize td) \<and> s * falsyOr (p_count p) 1 \<noteq> the (td_assertSize td)) \<and>
      r = \<lparr>it_typeDef = td, it_totalSize = s * falsyOr (p_count p) 1, it_singleSize = s,
            it_variableSize = p_size p, it_count = p_count p,
            it_typeArgs = p_typeArgs p, it_typeName = p_type p\<rparr>)"
  by (auto simp: finish_def Let_def)

lemma instantiateType_nonalias:
  assumes "D (p_type p) = Some td0" "td_class td0 \<noteq> Some ''alias''"
  shows "instantiateType (Suc n) D e p =
    bindR (effectiveTypeDef (instantiateType n D e) (p_typeArgs p) td0)
      (\<lambda>td. bindR (determineSize (instantiateType n D e) (p_typeArgs p) (p_size p) td)
         (\<lambda>ss. case ss of None \<Rightarrow> throw (UnresolvableSize (p_type p) e)
                | Some s \<Rightarrow> finish p td s))"
  using assms by simp

lemma instantiateType_ok_cases:
  "instantiateType n D e p = ok r \<Longrightarrow>
   \<exists>m q td0 td s. m < n \<and> D (p_type q) = Some td0 \<and> td_class td0 \<noteq> Some ''alias'' \<and>
     effectiveTypeDef (instantiateType m D e) (p_typeArgs q) td0 = ok td \<and>
     determineSize (instantiateType m D e) (p_typeArgs q) (p_size q) td = ok (Some s) \<and>
     finish q td s = ok r"
proof (induction n arbitrary: p)
  case 0
  then show ?case by (simp add: ok_def)
next
  case (Suc n)
  show ?case
  proof (cases "D (p_type p)")
    case None
    with Suc.prems show ?thesis by simp
  next
    case (Some td0)
    show ?thesis
    proof (cases "td_class td0 = Some ''alias''")
      case True
      with Some Suc.prems
      have "instantiateType n D e (processGenerics (spreadParams p td0) (p_typeArgs p)) = ok r"
        by simp
      from Suc.IH [OF this] show ?thesis
        using less_Suc_eq by blast
    next
      case False
      from Suc.prems obtain td ss where
        a: "effectiveTypeDef (instantiateType n D e) (p_typeArgs p) td0 = ok td" and
        b: "determineSize (instantiateType n D e) (p_typeArgs p) (p_size p) td = ok ss" and
        c: "(case ss of None \<Rightarrow> throw (UnresolvableSize (p_type p) e) | Some s \<Rightarrow> finish p td s) = ok r"
        unfolding instantiateType_nonalias [of D p td0 n e, OF Some False] by (auto simp: bindR_eq_ok)
      from c obtain s where "ss = Some s" "finish p td s = ok r"
        by (cases ss) auto
      with a b Some False show ?thesis by blast
    qed
  qed
qed

lemma determineSize_Some:
  assumes "determineSize inst ta sz td = ok (Some s)"
  shows "s \<noteq> 0 \<and>
    (if truthy sz then sz = Some s
     else if truthy (td_size td) then td_size td = Some s
     else td_class td = Some ''struct'' \<and>
          (\<exists>fs. td_fields td = Some fs \<and> reduceFields inst ta fs 0 = ok s))"
  using assms
  by (auto simp: determineSize_def truthy_def bindR_eq_ok split: if_splits option.splits)

lemma determineSize_cases:
  "determineSize inst ta sz td =
    (if truthy sz then ok sz
     else if truthy (td_size td) then ok (td_size td)
     else if td_class td = Some ''struct'' then
       (case td_fields td of
          None \<Rightarrow> throw TypeError
        | Some fs \<Rightarrow> bindR (reduceFields inst ta fs 0) (\<lambda>s. if s \<noteq> 0 then ok (Some s) else ok None))
     else ok None)"
  by (simp add: determineSize_def)

lemma truthy_Some: "truthy v \<Longrightarrow> v = Some (the v)"
  by (cases v) (simp_all add: truthy_def)

lemma mergeTypeDef_Inr:
  assumes "mergeTypeDef parent td = Inr m"
  shows "\<exists>pfs cfs. td_fields parent = Some pfs \<and> td_fields td = Some cfs \<and>
           td_fields m = Some (pfs @ cfs) \<and>
           td_class m = spread (td_class parent) (td_class td) \<and>
           td_size m = spread (td_size parent) (td_size td) \<and>
           td_assertSize m = spread (td_assertSize parent) (td_assertSize td) \<and>
           td_comments m = spread (td_comments parent) (td_comments td) \<and>
           td_labels m = spread (td_labels parent) (td_labels td)"
proof (cases "td_fields parent")
  case None
  with assms show ?thesis by (simp add: mergeTypeDef_def)
next
  case (Some pfs)
  note p = this
  show ?thesis
  proof (cases "td_fields td")
    case None
    with assms p show ?thesis by (simp add: mergeTypeDef_def)
  next
    case (Some cfs)
    from assms have "m = \<lparr>td_class = spread (td_class parent) (td_class td),
             td_size = spread (td_size parent) (td_size td),
             td_args = spread (td_args parent) (td_args td),
             td_endianness = spread (td_endianness parent) (td_endianness td),
             td_type = spread (td_type parent) (td_type td),
             td_typeArgs = spread (td_typeArgs parent) (td_typeArgs td),
             td_count = spread (td_count parent) (td_count td),
             td_extends = spread (td_extends parent) (td_extends td),
             td_fields = Some (pfs @ cfs),
             td_assertSize = spread (td_assertSize parent) (td_assertSize td),
             td_bits = spread (td_bits parent) (td_bits td),
             td_options = spread (td_options parent) (td_options td),
             td_labels = spread (td_labels parent) (td_labels td),
             td_comments = spread (td_comments parent) (td_comments td)\<rparr>"
      unfolding mergeTypeDef_def p Some by simp
    then show ?thesis using p Some by simp
  qed
qed

lemma sameSizes_refl: "sameSizes a a"
  by (simp add: sameSizes_def split: option.splits sum.splits)

lemma showInt_0: "showInt 0 = ''0''"
  by code_simp

lemma typeStr_count:
  "it_count r = Some c \<Longrightarrow> \<exists>pre. tc_typeStr (renderStructFieldType r) = pre @ ''['' @ showInt c @ '']''"
  by (simp add: renderStructFieldType_def Let_def)

lemma processGenerics_count:
  "processGenerics (q\<lparr>p_count := c\<rparr>) ta = (processGenerics q ta)\<lparr>p_count := c\<rparr>"
  by (simp add: processGenerics_def split: option.splits)

lemma processGenerics_sel:
  "p_count (processGenerics q ta) = p_count q" "p_size (processGenerics q ta) = p_size q"
  by (simp_all add: processGenerics_def split: option.splits)

lemma spreadParams_count:
  "spreadParams (p\<lparr>p_count := c\<rparr>) a =
     (if td_count a = None then (spreadParams p a)\<lparr>p_count := c\<rparr> else spreadParams p a)"
  by (auto simp: spreadParams_def spread_def split: option.splits)

lemma finish_count:
  "sameSizes (finish (p\<lparr>p_count := Some 0\<rparr>) td s) (finish (p\<lparr>p_count := None\<rparr>) td s)"
  by (simp add: finish_def falsyOr_def truthy_def sameSizes_def throw_def ok_def)

lemma sameSizes_bindR:
  assumes "\<And>v. sameSizes (f v) (g v)"
  shows "sameSizes (bindR m f) (bindR m g)"
proof (cases m)
  case None
  then show ?thesis by (simp add: sameSizes_def)
next
  case (Some x)
  then show ?thesis using assms by (cases x) (simp_all add: sameSizes_def)
qed

lemma count_zero_same:
  "sameSizes (instantiateType n D e (p\<lparr>p_count := Some 0\<rparr>)) (instantiateType n D e (p\<lparr>p_count := None\<rparr>))"
proof (induction n arbitrary: p)
  case 0
  show ?case by (simp add: sameSizes_def)
next
  case (Suc n)
  show ?case
  proof (cases "D (p_type p)")
    case None
    then show ?thesis by (simp add: sameSizes_refl)
  next
    case (Some td0)
    show ?thesis
    proof (cases "td_class td0 = Some ''alias''")
      case True
      show ?thesis
      proof (cases "td_count td0")
        case None
        with Some True Suc.IH [of "processGenerics (spreadParams p td0) (p_typeArgs p)"]
        show ?thesis by (simp add: spreadParams_count processGenerics_count)
      next
        case (Some c)
        with \<open>D (p_type p) = Some td0\<close> True show ?thesis
          by (simp add: spreadParams_count sameSizes_refl)
      qed
    next
      case False
      have l: "D (p_type (p\<lparr>p_count := c\<rparr>)) = Some td0" for c using Some by simp
      show ?thesis
        unfolding instantiateType_nonalias [of D "p\<lparr>p_count := Some 0\<rparr>" td0 n e, OF l False]
          instantiateType_nonalias [of D "p\<lparr>p_count := None\<rparr>" td0 n e, OF l False]
        by (simp, intro sameSizes_bindR)
           (simp add: finish_count sameSizes_refl split: option.splits)
    qed
  qed
qed

lemma returned_singleSize_source:
  assumes "instantiateType k D e q = ok r"
  shows "it_singleSize r \<noteq> 0 \<and>
    (if truthy (it_variableSize r) then it_variableSize r = Some (it_singleSize r)
     else if truthy (td_size (it_typeDef r)) then td_size (it_typeDef r) = Some (it_singleSize r)
     else td_class (it_typeDef r) = Some ''struct'' \<and>
          (\<exists>m<k. \<exists>fs. td_fields (it_typeDef r) = Some fs \<and>
             reduceFields (instantiateType m D e) (it_typeArgs r) fs 0 = ok (it_singleSize r)))"
proof -
  from instantiateType_ok_cases [OF assms] obtain m p td s where
    m: "m < k" and
    d: "determineSize (instantiateType m D e) (p_typeArgs p) (p_size p) td = ok (Some s)" and
    f: "finish p td s = ok r"
    by blast
  from f have r: "it_typeDef r = td" "it_singleSize r = s" "it_variableSize r = p_size p"
    "it_typeArgs r = p_typeArgs p"
    by (auto simp: finish_ok)
  from determineSize_Some [OF d] m show ?thesis
    unfolding r by (auto split: if_splits)
qed

text \<open>
  The fold over the fields returns exactly when every field instantiates, and then it
  returns the sum of the fields' total sizes added to the start value.
\<close>

lemma reduceFields_sum:
  "reduceFields inst ta fs s = ok t \<longleftrightarrow>
     (\<exists>rs. list_all2 (\<lambda>f r. inst (fieldParams ta f) = ok r) fs rs \<and>
           t = sum_list (map it_totalSize rs) + s)"
proof (induction fs arbitrary: s)
  case Nil
  show ?case by auto
next
  case (Cons f fs)
  have "reduceFields inst ta (f # fs) s = ok t \<longleftrightarrow>
          (\<exists>v. inst (fieldParams ta f) = ok v \<and>
               (\<exists>rs. list_all2 (\<lambda>f r. inst (fieldParams ta f) = ok r) fs rs \<and>
                     t = sum_list (map it_totalSize rs) + (it_totalSize v + s)))"
    unfolding reduceFields.simps bindR_eq_ok Cons.IH fieldParams_def [symmetric] ..
  also have "\<dots> \<longleftrightarrow>
          (\<exists>rs. list_all2 (\<lambda>f r. inst (fieldParams ta f) = ok r) (f # fs) rs \<and>
                t = sum_list (map it_totalSize rs) + s)"
  proof
    assume "\<exists>v. inst (fieldParams ta f) = ok v \<and>
               (\<exists>rs. list_all2 (\<lambda>f r. inst (fieldParams ta f) = ok r) fs rs \<and>
                     t = sum_list (map it_totalSize rs) + (it_totalSize v + s))"
    then obtain v rs where "inst (fieldParams ta f) = ok v"
      "list_all2 (\<lambda>f r. inst (fieldParams ta f) = ok r) fs rs"
      "t = sum_list (map it_totalSize rs) + (it_totalSize v + s)" by blast
    then have "list_all2 (\<lambda>f r. inst (fieldParams ta f) = ok r) (f # fs) (v # rs) \<and>
                t = sum_list (map it_totalSize (v # rs)) + s" by simp
    then show "\<exists>rs. list_all2 (\<lambda>f r. inst (fieldParams ta f) = ok r) (f # fs) rs \<and>
                t = sum_list (map it_totalSize rs) + s" ..
  next
    assume "\<exists>rs. list_all2 (\<lambda>f r. inst (fieldParams ta f) = ok r) (f # fs) rs \<and>
                t = sum_list (map it_totalSize rs) + s"
    then obtain v rs where "inst (fieldParams ta f) = ok v"
      "list_all2 (\<lambda>f r. inst (fieldParams ta f) = ok r) fs rs"
      "t = sum_list (map it_totalSize (v # rs)) + s"
      by (auto simp: list_all2_Cons1)
    then show "\<exists>v. inst (fieldParams ta f) = ok v \<and>
               (\<exists>rs. list_all2 (\<lambda>f r. inst (fieldParams ta f) = ok r) fs rs \<and>
                     t = sum_list (map it_totalSize rs) + (it_totalSize v + s))"
      by auto
  qed
  finally show ?case .
qed

lemma fields_sum_unique:
  assumes "list_all2 (\<lambda>f r. inst (fieldParams ta f) = ok r) fs rs"
  shows "reduceFields inst ta fs 0 = ok (sum_list (map it_totalSize rs))"
  using assms unfolding reduceFields_sum by auto

lemma returned_fields_sum:
  assumes "instantiateType k D e q = ok r"
  shows "it_singleSize r \<noteq> 0 \<and>
    (if truthy (it_variableSize r) then it_variableSize r = Some (it_singleSize r)
     else if truthy (td_size (it_typeDef r)) then td_size (it_typeDef r) = Some (it_singleSize r)
     else td_class (it_typeDef r) = Some ''struct'' \<and>
          (\<exists>m<k. \<exists>fs rs. td_fields (it_typeDef r) = Some fs \<and>
             list_all2 (\<lambda>f x. instantiateType m D e (fieldParams (it_typeArgs r) f) = ok x) fs rs \<and>
             it_singleSize r = sum_list (map it_totalSize rs)))"
proof -
  note s = returned_singleSize_source [OF assms]
  show ?thesis
  proof (cases "truthy (it_variableSize r) \<or> truthy (td_size (it_typeDef r))")
    case True
    with s show ?thesis by auto
  next
    case False
    with s obtain m fs where m: "m < k" and f: "td_fields (it_typeDef r) = Some fs" and
      red: "reduceFields (instantiateType m D e) (it_typeArgs r) fs 0 = ok (it_singleSize r)" and
      c: "td_class (it_typeDef r) = Some ''struct''" and z: "it_singleSize r \<noteq> 0"
      by auto
    from red obtain rs where
      "list_all2 (\<lambda>f x. instantiateType m D e (fieldParams (it_typeArgs r) f) = ok x) fs rs"
      "it_singleSize r = sum_list (map it_totalSize rs)"
      unfolding reduceFields_sum by auto
    with m f c z False show ?thesis by auto
  qed
qed

subsection \<open>Size determination\<close>

text \<open>
  Claim C1, as the code has it. For a request whose type is not an alias, with \<open>td\<close> the
  effective definition (merged with the parent's when the struct extends one), the size
  of one element is found in this order, a value of zero counting as absent at every
  step: the request's size; the effective definition's size; for a struct only, the sum
  of \<open>it_totalSize\<close> over the instantiations \<open>rs\<close> of its fields, each field instantiated
  after substitution of the request's type arguments. When none of the three gives a
  value other than zero, the instantiation throws the size diagnostic. \<open>finish\<close> is the
  rest of the function (total size, assertion, returned object), and the object it
  returns has that single size.
  Read from the result, for any request, an alias included: the returned single size
  is never zero, and it is the returned explicit size when that is not zero, else the
  returned definition's size when that is not zero, else the sum of the total sizes of
  the instantiated fields of the returned struct definition.
\<close>

theorem singleSize_priority:
  assumes "D (p_type p) = Some td0" and "td_class td0 \<noteq> Some ''alias''"
    and "effectiveTypeDef (instantiateType n D e) (p_typeArgs p) td0 = ok td"
  shows "(truthy (p_size p) \<longrightarrow>
            instantiateType (Suc n) D e p = finish p td (the (p_size p)))
       \<and> (\<not> truthy (p_size p) \<and> truthy (td_size td) \<longrightarrow>
            instantiateType (Suc n) D e p = finish p td (the (td_size td)))
       \<and> (\<forall>fs rs. \<not> truthy (p_size p) \<and> \<not> truthy (td_size td) \<and> td_class td = Some ''struct'' \<and>
              td_fields td = Some fs \<and>
              list_all2 (\<lambda>f r. instantiateType n D e (fieldParams (p_typeArgs p) f) = ok r) fs rs \<and>
              sum_list (map it_totalSize rs) \<noteq> 0 \<longrightarrow>
            instantiateType (Suc n) D e p = finish p td (sum_list (map it_totalSize rs)))
       \<and> (\<not> truthy (p_size p) \<and> \<not> truthy (td_size td) \<and>
            (td_class td \<noteq> Some ''struct'' \<or>
             (\<exists>fs rs. td_fields td = Some fs \<and>
                list_all2 (\<lambda>f r. instantiateType n D e (fieldParams (p_typeArgs p) f) = ok r) fs rs \<and>
                sum_list (map it_totalSize rs) = 0)) \<longrightarrow>
            instantiateType (Suc n) D e p = throw (UnresolvableSize (p_type p) e))
       \<and> (\<forall>s r. finish p td s = ok r \<longrightarrow> it_singleSize r = s)
       \<and> (\<forall>k q r. instantiateType k D e q = ok r \<longrightarrow>
            it_singleSize r \<noteq> 0 \<and>
            (if truthy (it_variableSize r) then it_variableSize r = Some (it_singleSize r)
             else if truthy (td_size (it_typeDef r))
                  then td_size (it_typeDef r) = Some (it_singleSize r)
             else td_class (it_typeDef r) = Some ''struct'' \<and>
                  (\<exists>m<k. \<exists>fs rs. td_fields (it_typeDef r) = Some fs \<and>
                     list_all2 (\<lambda>f x. instantiateType m D e (fieldParams (it_typeArgs r) f) = ok x)
                       fs rs \<and>
                     it_singleSize r = sum_list (map it_totalSize rs))))"
proof -
  note step = instantiateType_nonalias [of D p td0 n e, OF assms(1,2), unfolded assms(3) bindR_ok]
  have a: "truthy (p_size p) \<longrightarrow> instantiateType (Suc n) D e p = finish p td (the (p_size p))"
    unfolding step by (cases "p_size p") (simp_all add: determineSize_cases truthy_def)
  have b: "\<not> truthy (p_size p) \<and> truthy (td_size td) \<longrightarrow>
            instantiateType (Suc n) D e p = finish p td (the (td_size td))"
    unfolding step by (cases "td_size td") (simp_all add: determineSize_cases truthy_def)
  have c: "\<forall>fs rs. \<not> truthy (p_size p) \<and> \<not> truthy (td_size td) \<and> td_class td = Some ''struct'' \<and>
              td_fields td = Some fs \<and>
              list_all2 (\<lambda>f r. instantiateType n D e (fieldParams (p_typeArgs p) f) = ok r) fs rs \<and>
              sum_list (map it_totalSize rs) \<noteq> 0 \<longrightarrow>
            instantiateType (Suc n) D e p = finish p td (sum_list (map it_totalSize rs))"
    unfolding step by (auto simp: determineSize_cases dest!: fields_sum_unique)
  have d: "\<not> truthy (p_size p) \<and> \<not> truthy (td_size td) \<and>
            (td_class td \<noteq> Some ''struct'' \<or>
             (\<exists>fs rs. td_fields td = Some fs \<and>
                list_all2 (\<lambda>f r. instantiateType n D e (fieldParams (p_typeArgs p) f) = ok r) fs rs \<and>
                sum_list (map it_totalSize rs) = 0)) \<longrightarrow>
            instantiateType (Suc n) D e p = throw (UnresolvableSize (p_type p) e)"
    unfolding step by (auto simp: determineSize_cases dest!: fields_sum_unique)
  have f: "\<forall>s r. finish p td s = ok r \<longrightarrow> it_singleSize r = s"
    by (auto simp: finish_ok)
  have g: "\<forall>k q r. instantiateType k D e q = ok r \<longrightarrow>
            it_singleSize r \<noteq> 0 \<and>
            (if truthy (it_variableSize r) then it_variableSize r = Some (it_singleSize r)
             else if truthy (td_size (it_typeDef r))
                  then td_size (it_typeDef r) = Some (it_singleSize r)
             else td_class (it_typeDef r) = Some ''struct'' \<and>
                  (\<exists>m<k. \<exists>fs rs. td_fields (it_typeDef r) = Some fs \<and>
                     list_all2 (\<lambda>f x. instantiateType m D e (fieldParams (it_typeArgs r) f) = ok x)
                       fs rs \<and>
                     it_singleSize r = sum_list (map it_totalSize rs)))"
    by (intro allI impI) (rule returned_fields_sum)
  from a b c d f g show ?thesis by (intro conjI)
qed

text \<open>
  The claim as written fails where a size is zero: a request for \<open>uint32\<close> with the
  explicit size 0 gets the single size 4 of the definition; a request for \<open>pad\<close>, which
  declares no size, with the explicit size 0 throws the size diagnostic; and the struct
  without fields, whose field sizes sum to 0, throws it too.
\<close>

theorem singleSize_priority_counterexample:
  "instantiateType 1 (populate exampleDefs) ''uint32'' ((req ''uint32'')\<lparr>p_size := Some 0\<rparr>) =
     ok \<lparr>it_typeDef = prim 4, it_totalSize = 4, it_singleSize = 4, it_variableSize = Some 0,
         it_count = None, it_typeArgs = None, it_typeName = ''uint32''\<rparr>
   \<and> instantiateType 1 (populate exampleDefs) ''pad'' ((req ''pad'')\<lparr>p_size := Some 0\<rparr>) =
     throw (UnresolvableSize ''pad'' ''pad'')
   \<and> instantiateType 1 (populate exampleDefs) ''Empty'' (req ''Empty'') =
     throw (UnresolvableSize ''Empty'' ''Empty'')"
  by code_simp

text \<open>
  A struct with an array field: no size in the request, none in the definition, and two
  fields whose total sizes are 12 (three elements of 4 bytes) and 2. The single size is
  their sum 14, not the sum 6 of their single sizes.
\<close>

theorem singleSize_priority_witness:
  "instantiateType 2 (populate exampleDefs) ''Arr'' (req ''Arr'') =
     finish (req ''Arr'') (the (populate exampleDefs ''Arr'')) (12 + 2)"
proof -
  let ?D = "populate exampleDefs" and ?td = "the (populate exampleDefs ''Arr'')"
  let ?items = "\<lparr>it_typeDef = prim 4, it_totalSize = 12, it_singleSize = 4, it_variableSize = None,
         it_count = Some 3, it_typeArgs = None, it_typeName = ''uint32''\<rparr>"
  let ?n = "\<lparr>it_typeDef = prim 2, it_totalSize = 2, it_singleSize = 2, it_variableSize = None,
         it_count = None, it_typeArgs = None, it_typeName = ''uint16''\<rparr>"
  let ?fs = "[(fld ''items'' ''uint32'')\<lparr>p_count := Some 3\<rparr>, fld ''n'' ''uint16'']"
  have 1: "?D (p_type (req ''Arr'')) = Some ?td" by code_simp
  have 2: "td_class ?td \<noteq> Some ''alias''" by code_simp
  have 3: "effectiveTypeDef (instantiateType 1 ?D ''Arr'') (p_typeArgs (req ''Arr'')) ?td = ok ?td"
    by code_simp
  have i1: "instantiateType 1 ?D ''Arr'' (fieldParams (p_typeArgs (req ''Arr''))
              ((fld ''items'' ''uint32'')\<lparr>p_count := Some 3\<rparr>)) = ok ?items" by code_simp
  have i2: "instantiateType 1 ?D ''Arr'' (fieldParams (p_typeArgs (req ''Arr''))
              (fld ''n'' ''uint16'')) = ok ?n" by code_simp
  have s: "sum_list (map it_totalSize [?items, ?n]) = 12 + 2" by simp
  have 4: "\<not> truthy (p_size (req ''Arr'')) \<and> \<not> truthy (td_size ?td) \<and> td_class ?td = Some ''struct'' \<and>
      td_fields ?td = Some ?fs \<and>
      list_all2 (\<lambda>f r. instantiateType 1 ?D ''Arr'' (fieldParams (p_typeArgs (req ''Arr'')) f) = ok r)
        ?fs [?items, ?n] \<and>
      sum_list (map it_totalSize [?items, ?n]) \<noteq> 0"
  proof (intro conjI)
    show "\<not> truthy (p_size (req ''Arr''))" by code_simp
    show "\<not> truthy (td_size ?td)" by code_simp
    show "td_class ?td = Some ''struct''" by code_simp
    show "td_fields ?td = Some ?fs" by code_simp
    show "list_all2 (\<lambda>f r. instantiateType 1 ?D ''Arr'' (fieldParams (p_typeArgs (req ''Arr'')) f) = ok r)
        ?fs [?items, ?n]" using i1 i2 by simp
    show "sum_list (map it_totalSize [?items, ?n]) \<noteq> 0" by simp
  qed
  from singleSize_priority [of ?D "req ''Arr''" ?td 1 "''Arr''" ?td, OF 1 2 3,
      THEN conjunct2, THEN conjunct2, THEN conjunct1, rule_format, OF 4]
  show ?thesis unfolding Suc_1 s .
qed

text \<open>
  Claim C2, as the code has it: the total size of every returned object is its single
  size times its count, where an absent count and a count of zero both stand for one.
\<close>

theorem totalSize_invariant:
  assumes "instantiateType n D e p = ok r"
  shows "it_totalSize r = it_singleSize r * falsyOr (it_count r) 1"
proof -
  from instantiateType_ok_cases [OF assms] obtain q td s where "finish q td s = ok r"
    by blast
  then show ?thesis by (auto simp: finish_ok)
qed

text \<open>
  With the nullish default of the specification a count of zero gives the total size
  zero; the code returns the single size.
\<close>

theorem totalSize_invariant_counterexample:
  "instantiateType 1 (populate exampleDefs) ''uint32'' ((req ''uint32'')\<lparr>p_count := Some 0\<rparr>) =
     ok \<lparr>it_typeDef = prim 4, it_totalSize = 4, it_singleSize = 4, it_variableSize = None,
         it_count = Some 0, it_typeArgs = None, it_typeName = ''uint32''\<rparr>
   \<and> (4::int) \<noteq> 4 * nullish (Some 0) 1"
  by code_simp

text \<open>
  Three elements of four bytes.
\<close>

theorem totalSize_invariant_witness:
  "it_totalSize \<lparr>it_typeDef = prim 4, it_totalSize = 12, it_singleSize = 4, it_variableSize = None,
         it_count = Some 3, it_typeArgs = None, it_typeName = ''uint32''\<rparr> = 4 * 3"
proof -
  have h: "instantiateType 1 (populate exampleDefs) ''uint32'' ((req ''uint32'')\<lparr>p_count := Some 3\<rparr>) =
     ok \<lparr>it_typeDef = prim 4, it_totalSize = 12, it_singleSize = 4, it_variableSize = None,
         it_count = Some 3, it_typeArgs = None, it_typeName = ''uint32''\<rparr>"
    by code_simp
  from totalSize_invariant [OF h] show ?thesis by (simp add: falsyOr_def truthy_def)
qed

text \<open>
  Claim C9: a request without a size (or with size zero) for a struct whose effective
  definition declares no size (or size zero) and whose fields instantiate to total sizes
  that sum to zero, the struct without fields included, throws the size diagnostic; it
  does not return a single size of zero.
\<close>

theorem zero_sum_struct_unresolvable:
  assumes "D (p_type p) = Some td0" and "td_class td0 \<noteq> Some ''alias''"
    and "effectiveTypeDef (instantiateType n D e) (p_typeArgs p) td0 = ok td"
    and "td_class td = Some ''struct''"
    and "\<not> truthy (p_size p)" and "\<not> truthy (td_size td)"
    and "td_fields td = Some fs"
    and "reduceFields (instantiateType n D e) (p_typeArgs p) fs 0 = ok 0"
  shows "instantiateType (Suc n) D e p = throw (UnresolvableSize (p_type p) e)"
  unfolding instantiateType_nonalias [of D p td0 n e, OF assms(1,2), unfolded assms(3) bindR_ok]
  using assms(4-8) by (simp add: determineSize_cases)

text \<open>
  The struct without fields.
\<close>

theorem zero_sum_struct_unresolvable_witness:
  "instantiateType 1 (populate exampleDefs) ''Empty'' (req ''Empty'') =
     throw (UnresolvableSize ''Empty'' ''Empty'')"
proof -
  let ?D = "populate exampleDefs" and ?td = "the (populate exampleDefs ''Empty'')"
  have 1: "?D (p_type (req ''Empty'')) = Some ?td" by code_simp
  have 2: "td_class ?td \<noteq> Some ''alias''" by code_simp
  have 3: "effectiveTypeDef (instantiateType 0 ?D ''Empty'') (p_typeArgs (req ''Empty'')) ?td = ok ?td"
    by code_simp
  have 4: "td_class ?td = Some ''struct''" by code_simp
  have 5: "\<not> truthy (p_size (req ''Empty''))" by code_simp
  have 6: "\<not> truthy (td_size ?td)" by code_simp
  have 7: "td_fields ?td = Some []" by code_simp
  have 8: "reduceFields (instantiateType 0 ?D ''Empty'') (p_typeArgs (req ''Empty'')) [] 0 = ok 0"
    by simp
  from zero_sum_struct_unresolvable [of ?D "req ''Empty''" ?td 0 "''Empty''" ?td "[]", OF 1 2 3 4 5 6 7 8]
  show ?thesis by (simp add: req_def)
qed

subsection \<open>The size assertion\<close>

text \<open>
  Claim C5, as the code has it. When the effective definition carries an \<open>assertSize\<close>
  other than zero and the single size has been determined: a total size that differs
  throws the assertion diagnostic with the type name, the total size and the asserted
  size; a total size that is equal returns the instantiated object.
\<close>

theorem assertSize_enforced:
  assumes "D (p_type p) = Some td0" and "td_class td0 \<noteq> Some ''alias''"
    and "effectiveTypeDef (instantiateType n D e) (p_typeArgs p) td0 = ok td"
    and "determineSize (instantiateType n D e) (p_typeArgs p) (p_size p) td = ok (Some s)"
    and "td_assertSize td = Some a" and "a \<noteq> 0"
  shows "(s * falsyOr (p_count p) 1 \<noteq> a \<longrightarrow>
            instantiateType (Suc n) D e p =
              throw (SizeAssertion (p_type p) (s * falsyOr (p_count p) 1) a))
       \<and> (s * falsyOr (p_count p) 1 = a \<longrightarrow>
            instantiateType (Suc n) D e p =
              ok \<lparr>it_typeDef = td, it_totalSize = a, it_singleSize = s,
                  it_variableSize = p_size p, it_count = p_count p,
                  it_typeArgs = p_typeArgs p, it_typeName = p_type p\<rparr>)"
  unfolding instantiateType_nonalias [of D p td0 n e, OF assms(1,2), unfolded assms(3) bindR_ok]
  using assms(4-6) by (simp add: finish_def truthy_def)

text \<open>
  An asserted size of zero is never compared: the struct of four bytes that asserts size 0
  is instantiated.
\<close>

theorem assertSize_enforced_counterexample:
  "instantiateType 2 (populate exampleDefs) ''Loose'' (req ''Loose'') =
     ok \<lparr>it_typeDef = (struct [fld ''x'' ''uint32''])\<lparr>td_assertSize := Some 0\<rparr>,
         it_totalSize = 4, it_singleSize = 4, it_variableSize = None,
         it_count = None, it_typeArgs = None, it_typeName = ''Loose''\<rparr>"
  by code_simp

text \<open>
  A struct of four bytes that asserts eight.
\<close>

theorem assertSize_enforced_witness:
  "instantiateType 2 (populate exampleDefs) ''Wrong'' (req ''Wrong'') =
     throw (SizeAssertion ''Wrong'' 4 8)"
proof -
  let ?D = "populate exampleDefs" and ?td = "the (populate exampleDefs ''Wrong'')"
  have 1: "?D (p_type (req ''Wrong'')) = Some ?td" by code_simp
  have 2: "td_class ?td \<noteq> Some ''alias''" by code_simp
  have 3: "effectiveTypeDef (instantiateType 1 ?D ''Wrong'') (p_typeArgs (req ''Wrong'')) ?td = ok ?td"
    by code_simp
  have 4: "determineSize (instantiateType 1 ?D ''Wrong'') (p_typeArgs (req ''Wrong''))
             (p_size (req ''Wrong'')) ?td = ok (Some 4)"
    by code_simp
  have 5: "td_assertSize ?td = Some 8" by code_simp
  have 6: "(8::int) \<noteq> 0" by simp
  have 7: "4 * falsyOr (p_count (req ''Wrong'')) 1 \<noteq> (8::int)" by code_simp
  have 8: "SizeAssertion (p_type (req ''Wrong'')) (4 * falsyOr (p_count (req ''Wrong'')) 1) 8 =
           SizeAssertion ''Wrong'' 4 8" by code_simp
  from assertSize_enforced [of ?D "req ''Wrong''" ?td 1 "''Wrong''" ?td 4 8, OF 1 2 3 4 5 6,
      THEN conjunct1, rule_format, OF 7]
  show ?thesis unfolding Suc_1 8 .
qed

subsection \<open>Aliases and inheritance\<close>




text \<open>
  Claim C4: when a request for a struct that declares \<open>extends\<close> returns, the parent has
  been instantiated (with the request's type arguments substituted), and the fields of
  the returned definition are the parent's resolved fields followed by the child's own;
  every other key is the child's when the child has it and the parent's otherwise.
\<close>

theorem extends_merges_fields:
  assumes "instantiateType n D e p = ok r" and "D (p_type p) = Some td"
    and "td_class td = Some ''struct''" and "td_extends td = Some ext"
  shows "\<exists>m parent pfs cfs. n = Suc m \<and>
           instantiateType m D e (processGenerics ext (p_typeArgs p)) = ok parent \<and>
           td_fields (it_typeDef parent) = Some pfs \<and> td_fields td = Some cfs \<and>
           td_fields (it_typeDef r) = Some (pfs @ cfs) \<and>
           td_assertSize (it_typeDef r) = spread (td_assertSize (it_typeDef parent)) (td_assertSize td) \<and>
           td_comments (it_typeDef r) = spread (td_comments (it_typeDef parent)) (td_comments td) \<and>
           td_labels (it_typeDef r) = spread (td_labels (it_typeDef parent)) (td_labels td) \<and>
           td_size (it_typeDef r) = spread (td_size (it_typeDef parent)) (td_size td) \<and>
           td_class (it_typeDef r) = Some ''struct''"
proof -
  from assms(1) obtain m where n: "n = Suc m"
    by (cases n) (auto simp: ok_def)
  have na: "td_class td \<noteq> Some ''alias''" using assms(3) by simp
  from assms(1) obtain td' ss where
    eff: "effectiveTypeDef (instantiateType m D e) (p_typeArgs p) td = ok td'" and
    fin: "(case ss of None \<Rightarrow> throw (UnresolvableSize (p_type p) e) | Some s \<Rightarrow> finish p td' s) = ok r"
    unfolding n instantiateType_nonalias [of D p td m e, OF assms(2) na]
    by (auto simp: bindR_eq_ok)
  from fin have r: "it_typeDef r = td'"
    by (cases ss) (auto simp: finish_ok)
  from eff assms(3,4) obtain parent where
    par: "instantiateType m D e (processGenerics ext (p_typeArgs p)) = ok parent" and
    mer: "mergeTypeDef (it_typeDef parent) td = Inr td'"
    by (auto simp: effectiveTypeDef_def bindR_eq_Inr ok_def)
  from mergeTypeDef_Inr [OF mer] obtain pfs cfs where
    m: "td_fields (it_typeDef parent) = Some pfs" "td_fields td = Some cfs"
       "td_fields td' = Some (pfs @ cfs)"
       "td_class td' = spread (td_class (it_typeDef parent)) (td_class td)"
       "td_size td' = spread (td_size (it_typeDef parent)) (td_size td)"
       "td_assertSize td' = spread (td_assertSize (it_typeDef parent)) (td_assertSize td)"
       "td_comments td' = spread (td_comments (it_typeDef parent)) (td_comments td)"
       "td_labels td' = spread (td_labels (it_typeDef parent)) (td_labels td)"
    by blast
  have cls: "td_class td' = Some ''struct''"
    using m(4) assms(3) by (simp add: spread_def)
  show ?thesis
    using n par m(1,2,3,5,6,7,8) cls unfolding r by blast
qed

text \<open>
  \<open>Child\<close> extends \<open>Parent\<close>: the parent's field comes first, and the child's asserted size
  and comments replace the parent's.
\<close>

theorem extends_merges_fields_witness:
  "td_fields (it_typeDef (exampleEntry ''Child'')) = Some [fld ''id'' ''uint32'', fld ''len'' ''uint16'']
   \<and> td_assertSize (it_typeDef (exampleEntry ''Child'')) = Some 6
   \<and> td_comments (it_typeDef (exampleEntry ''Child'')) = Some [(''en'', ''derived'')]"
proof -
  let ?D = "populate exampleDefs" and ?r = "exampleEntry ''Child''"
  let ?td = "the (populate exampleDefs ''Child'')"
  let ?parent = "projr (the (instantiateType 2 ?D ''Child'' (req ''Parent'')))"
  have 1: "instantiateType 3 ?D ''Child'' (req ''Child'') = ok ?r" by code_simp
  have 2: "?D (p_type (req ''Child'')) = Some ?td" by code_simp
  have 3: "td_class ?td = Some ''struct''" by code_simp
  have 4: "td_extends ?td = Some (req ''Parent'')" by code_simp
  have 5: "instantiateType 2 ?D ''Child'' (processGenerics (req ''Parent'') (p_typeArgs (req ''Child''))) = ok ?parent"
    by code_simp
  have 6: "td_fields (it_typeDef ?parent) = Some [fld ''id'' ''uint32'']"
    "td_assertSize (it_typeDef ?parent) = Some 4" "td_comments (it_typeDef ?parent) = Some [(''en'', ''base'')]"
    by code_simp+
  have 7: "td_fields ?td = Some [fld ''len'' ''uint16'']" "td_assertSize ?td = Some 6"
    "td_comments ?td = Some [(''en'', ''derived'')]"
    by code_simp+
  from extends_merges_fields [OF 1 2 3 4] obtain m parent pfs cfs where
    m: "3 = Suc m" and
    p: "instantiateType m ?D ''Child'' (processGenerics (req ''Parent'') (p_typeArgs (req ''Child''))) = ok parent" and
    f: "td_fields (it_typeDef parent) = Some pfs" "td_fields ?td = Some cfs"
       "td_fields (it_typeDef ?r) = Some (pfs @ cfs)" and
    a: "td_assertSize (it_typeDef ?r) = spread (td_assertSize (it_typeDef parent)) (td_assertSize ?td)" and
    c: "td_comments (it_typeDef ?r) = spread (td_comments (it_typeDef parent)) (td_comments ?td)"
    by blast
  from m have "m = 2" by simp
  with p 5 have par: "parent = ?parent" by simp
  from f 6(1) 7(1) have "td_fields (it_typeDef ?r) = Some [fld ''id'' ''uint32'', fld ''len'' ''uint16'']"
    unfolding par by simp
  moreover from a have "td_assertSize (it_typeDef ?r) = Some 6"
    unfolding par 6 7 by (simp add: spread_def)
  moreover from c have "td_comments (it_typeDef ?r) = Some [(''en'', ''derived'')]"
    unfolding par 6 7 by (simp add: spread_def)
  ultimately show ?thesis by (intro conjI)
qed

subsection \<open>A count of zero\<close>

text \<open>
  The count that is returned is the request's when no alias definition on the way carries
  one.
\<close>

lemma keepsCount_returned:
  "instantiateType n D e p = ok r \<Longrightarrow> keepsCount n D p \<Longrightarrow> it_count r = p_count p"
proof (induction n arbitrary: p)
  case 0
  then show ?case by (simp add: ok_def)
next
  case (Suc n)
  show ?case
  proof (cases "D (p_type p)")
    case None
    with Suc.prems show ?thesis by simp
  next
    case (Some td)
    show ?thesis
    proof (cases "td_class td = Some ''alias''")
      case True
      let ?q = "processGenerics (spreadParams p td) (p_typeArgs p)"
      from Suc.prems Some True have run: "instantiateType n D e ?q = ok r"
        and nc: "td_count td = None" and k: "keepsCount n D ?q"
        by simp_all
      have "p_count ?q = p_count p"
        using nc by (simp add: processGenerics_sel spreadParams_def spread_def)
      with Suc.IH [OF run k] show ?thesis by simp
    next
      case False
      from Suc.prems(1) have "\<exists>td' s. finish p td' s = ok r"
        unfolding instantiateType_nonalias [of D p td n e, OF Some False]
        by (auto simp: bindR_eq_ok split: option.splits)
      then show ?thesis by (auto simp: finish_ok)
    qed
  qed
qed

text \<open>
  Claim C10, as the code has it. A request with count zero that returns, when no alias
  definition resolved on the way carries a count of its own, returns the count zero, a
  total size equal to the single size, and a type string that ends in \<open>[0]\<close>. Whenever the
  returned count is zero the total size is the single size and the type string ends in
  \<open>[0]\<close>; a request whose type is not an alias has its own count returned; and every
  request with count zero has the outcome of the same request without a count, up to the
  returned count.
\<close>

theorem count_zero_as_absent:
  "(\<forall>r. instantiateType n D e p = ok r \<and> p_count p = Some 0 \<and> keepsCount n D p \<longrightarrow>
      it_count r = Some 0 \<and> it_totalSize r = it_singleSize r \<and>
      (\<exists>pre. tc_typeStr (renderStructFieldType r) = pre @ ''[0]''))
   \<and> (\<forall>r. instantiateType n D e p = ok r \<and> it_count r = Some 0 \<longrightarrow>
      it_totalSize r = it_singleSize r \<and>
      (\<exists>pre. tc_typeStr (renderStructFieldType r) = pre @ ''[0]''))
   \<and> (\<forall>r td. instantiateType n D e p = ok r \<and> D (p_type p) = Some td \<and>
        td_class td \<noteq> Some ''alias'' \<longrightarrow> it_count r = p_count p)
   \<and> sameSizes (instantiateType n D e (p\<lparr>p_count := Some 0\<rparr>))
               (instantiateType n D e (p\<lparr>p_count := None\<rparr>))"
proof -
  have zero: "it_totalSize r = it_singleSize r \<and>
      (\<exists>pre. tc_typeStr (renderStructFieldType r) = pre @ ''[0]'')"
    if a: "instantiateType n D e p = ok r" "it_count r = Some 0" for r
  proof -
    from instantiateType_ok_cases [OF a(1)] obtain q td s where "finish q td s = ok r"
      by blast
    with a(2) have "it_totalSize r = it_singleSize r"
      by (auto simp: finish_ok falsyOr_def truthy_def)
    moreover from typeStr_count [of r 0] a(2)
    have "\<exists>pre. tc_typeStr (renderStructFieldType r) = pre @ ''[0]''"
      by (simp add: showInt_0)
    ultimately show ?thesis ..
  qed
  have c1: "\<forall>r. instantiateType n D e p = ok r \<and> p_count p = Some 0 \<and> keepsCount n D p \<longrightarrow>
      it_count r = Some 0 \<and> it_totalSize r = it_singleSize r \<and>
      (\<exists>pre. tc_typeStr (renderStructFieldType r) = pre @ ''[0]'')"
  proof (intro allI impI)
    fix r
    assume a: "instantiateType n D e p = ok r \<and> p_count p = Some 0 \<and> keepsCount n D p"
    then have c: "it_count r = Some 0"
      using keepsCount_returned [of n D e p r] by simp
    with a zero [of r] show "it_count r = Some 0 \<and> it_totalSize r = it_singleSize r \<and>
      (\<exists>pre. tc_typeStr (renderStructFieldType r) = pre @ ''[0]'')" by blast
  qed
  have c2: "\<forall>r. instantiateType n D e p = ok r \<and> it_count r = Some 0 \<longrightarrow>
      it_totalSize r = it_singleSize r \<and>
      (\<exists>pre. tc_typeStr (renderStructFieldType r) = pre @ ''[0]'')"
    using zero by blast
  have c3: "\<forall>r td. instantiateType n D e p = ok r \<and> D (p_type p) = Some td \<and>
        td_class td \<noteq> Some ''alias'' \<longrightarrow> it_count r = p_count p"
  proof (intro allI impI)
    fix r td
    assume a: "instantiateType n D e p = ok r \<and> D (p_type p) = Some td \<and> td_class td \<noteq> Some ''alias''"
    then obtain m where n: "n = Suc m" by (cases n) (auto simp: ok_def)
    from a have "keepsCount n D p" unfolding n by simp
    with a show "it_count r = p_count p" by (auto dest: keepsCount_returned)
  qed
  have c4: "sameSizes (instantiateType n D e (p\<lparr>p_count := Some 0\<rparr>))
               (instantiateType n D e (p\<lparr>p_count := None\<rparr>))"
    by (rule count_zero_same)
  from c1 c2 c3 c4 show ?thesis by (intro conjI)
qed

text \<open>
  The claim as written fails for a request through an alias that carries a count: the keys
  of the alias definition are spread over the request's, so a request for \<open>Five\<close> (five
  elements of \<open>uint32\<close>) with count 0 returns the count 5 and the total size 20, not the
  single size 4.
\<close>

theorem count_zero_as_absent_counterexample:
  "instantiateType 2 (populate exampleDefs) ''Five'' ((req ''Five'')\<lparr>p_count := Some 0\<rparr>) =
     ok \<lparr>it_typeDef = prim 4, it_totalSize = 20, it_singleSize = 4, it_variableSize = None,
         it_count = Some 5, it_typeArgs = None, it_typeName = ''uint32''\<rparr>
   \<and> (20::int) \<noteq> 4"
  by code_simp

text \<open>
  A request for zero elements of the generic struct \<open>Box\<close> through the aliases \<open>BoxA\<close> and
  \<open>BoxB\<close>, neither of which carries a count.
\<close>

theorem count_zero_as_absent_witness:
  "instantiateType 4 (populate exampleDefs) ''BoxA''
      \<lparr>p_type = ''BoxA'', p_typeArgs = Some [(''V'', ''uint16'')], p_size = None, p_count = Some 0\<rparr>
   = ok \<lparr>it_typeDef = struct [fld ''value'' ''T''], it_totalSize = 2, it_singleSize = 2,
         it_variableSize = None, it_count = Some 0, it_typeArgs = Some [(''T'', ''uint16'')],
         it_typeName = ''Box''\<rparr>
   \<and> tc_typeStr (renderStructFieldType
        \<lparr>it_typeDef = struct [fld ''value'' ''T''], it_totalSize = 2, it_singleSize = 2,
         it_variableSize = None, it_count = Some 0, it_typeArgs = Some [(''T'', ''uint16'')],
         it_typeName = ''Box''\<rparr>) = ''Box<uint16>[0]''
   \<and> sameSizes (instantiateType 4 (populate exampleDefs) ''BoxA''
        \<lparr>p_type = ''BoxA'', p_typeArgs = Some [(''V'', ''uint16'')], p_size = None, p_count = Some 0\<rparr>)
       (instantiateType 4 (populate exampleDefs) ''BoxA''
        \<lparr>p_type = ''BoxA'', p_typeArgs = Some [(''V'', ''uint16'')], p_size = None, p_count = None\<rparr>)"
proof -
  let ?D = "populate exampleDefs"
  let ?p = "\<lparr>p_type = ''BoxA'', p_typeArgs = Some [(''V'', ''uint16'')], p_size = None, p_count = Some 0\<rparr>"
  let ?r = "projr (the (instantiateType 4 ?D ''BoxA'' ?p))"
  let ?r0 = "\<lparr>it_typeDef = struct [fld ''value'' ''T''], it_totalSize = 2, it_singleSize = 2,
         it_variableSize = None, it_count = Some 0, it_typeArgs = Some [(''T'', ''uint16'')],
         it_typeName = ''Box''\<rparr>"
  have 1: "instantiateType 4 ?D ''BoxA'' ?p = ok ?r" by code_simp
  have 2: "p_count ?p = Some 0" by simp
  have 3: "keepsCount 4 ?D ?p" by code_simp
  have 4: "it_typeDef ?r = struct [fld ''value'' ''T''] \<and> it_singleSize ?r = 2 \<and>
           it_variableSize ?r = None \<and> it_typeArgs ?r = Some [(''T'', ''uint16'')] \<and>
           it_typeName ?r = ''Box''" by code_simp
  note t = count_zero_as_absent [of 4 ?D "''BoxA''" ?p]
  from t 1 2 3 have c: "it_count ?r = Some 0" and s: "it_totalSize ?r = it_singleSize ?r"
    by blast+
  have "?r = ?r0"
    using 4 c s by (intro instantiated.equality) simp_all
  with 1 have a: "instantiateType 4 ?D ''BoxA'' ?p = ok ?r0" by simp
  have b: "tc_typeStr (renderStructFieldType ?r0) = ''Box<uint16>[0]''" by code_simp
  have 5: "?p\<lparr>p_count := Some 0\<rparr> = ?p"
    "?p\<lparr>p_count := None\<rparr> =
       \<lparr>p_type = ''BoxA'', p_typeArgs = Some [(''V'', ''uint16'')], p_size = None, p_count = None\<rparr>"
    by simp_all
  from t have "sameSizes (instantiateType 4 ?D ''BoxA'' (?p\<lparr>p_count := Some 0\<rparr>))
                (instantiateType 4 ?D ''BoxA'' (?p\<lparr>p_count := None\<rparr>))" by blast
  then have d: "sameSizes (instantiateType 4 ?D ''BoxA'' ?p)
       (instantiateType 4 ?D ''BoxA''
        \<lparr>p_type = ''BoxA'', p_typeArgs = Some [(''V'', ''uint16'')], p_size = None, p_count = None\<rparr>)"
    unfolding 5 .
  from a b d show ?thesis by (intro conjI)
qed

subsection \<open>The field callback\<close>






lemma title_totalSize [simp]: "tc_title (renderStructFieldType ift) = it_totalSize ift"
  by (simp add: renderStructFieldType_def Let_def)

text \<open>What a returning call of the field callback has done.\<close>

lemma renderField_ok:
  assumes "renderField rt inst ev ta pathId f (off, seen) = ok (row, off', seen')"
  shows "\<exists>ift emb seen1.
      inst (fieldParams ta f) = ok ift \<and>
      embeddedTypeOf inst ift = ok emb \<and>
      seen1 = (if hasSeen seen (seenTypeId ift) = None
               then AList.update (seenTypeId ift) (joinPathId pathId (f_name f)) seen else seen) \<and>
      off' = off + it_totalSize ift \<and>
      row_offset row = (if showOffsets ev then Some off else None) \<and>
      row_type row = renderStructFieldType ift \<and>
      row_backref row = (if emb \<noteq> None then hasSeen seen (seenTypeId ift) else None) \<and>
      (if emb \<noteq> None \<and> hasSeen seen (seenTypeId ift) = None
       then \<exists>d. rt seen1 (the emb) (joinPathId pathId (f_name f)) = ok (d, seen') \<and>
                row_embedded row = Some d
       else row_embedded row = None \<and> seen' = seen1)"
proof -
  from assms obtain ift where
    i: "inst (fieldParams ta f) = ok ift" and
    r1: "bindR (embeddedTypeOf inst ift) (\<lambda>embeddedType.
           let seen1 = (if hasSeen seen (seenTypeId ift) = None
                        then AList.update (seenTypeId ift) (joinPathId pathId (f_name f)) seen else seen);
               mk = (\<lambda>emb. Row (rowClasses f (it_typeDef ift))
                           (renderFieldName (f_name f) (joinPathId pathId (f_name f)))
                           (if showOffsets ev then Some off else None)
                           (renderStructFieldType ift)
                           (if embeddedType \<noteq> None then hasSeen seen (seenTypeId ift) else None)
                           (renderComments (lang ev) (f_labels f) (f_comments f))
                           emb)
           in (case embeddedType of
                 None \<Rightarrow> ok (mk None, off + it_totalSize ift, seen1)
               | Some et \<Rightarrow>
                   if hasSeen seen (seenTypeId ift) = None
                   then bindR (rt seen1 et (joinPathId pathId (f_name f)))
                          (\<lambda>(d, seen''). ok (mk (Some d), off + it_totalSize ift, seen''))
                   else ok (mk None, off + it_totalSize ift, seen1))) = ok (row, off', seen')"
    unfolding renderField_def fieldParams_def by (auto simp: Let_def bindR_eq_ok)
  from r1 obtain emb where e: "embeddedTypeOf inst ift = ok emb" and
    r2: "(let seen1 = (if hasSeen seen (seenTypeId ift) = None
                        then AList.update (seenTypeId ift) (joinPathId pathId (f_name f)) seen else seen);
               mk = (\<lambda>em. Row (rowClasses f (it_typeDef ift))
                           (renderFieldName (f_name f) (joinPathId pathId (f_name f)))
                           (if showOffsets ev then Some off else None)
                           (renderStructFieldType ift)
                           (if emb \<noteq> None then hasSeen seen (seenTypeId ift) else None)
                           (renderComments (lang ev) (f_labels f) (f_comments f))
                           em)
           in (case emb of
                 None \<Rightarrow> ok (mk None, off + it_totalSize ift, seen1)
               | Some et \<Rightarrow>
                   if hasSeen seen (seenTypeId ift) = None
                   then bindR (rt seen1 et (joinPathId pathId (f_name f)))
                          (\<lambda>(d, seen''). ok (mk (Some d), off + it_totalSize ift, seen''))
                   else ok (mk None, off + it_totalSize ift, seen1))) = ok (row, off', seen')"
    by (auto simp: bindR_eq_ok)
  show ?thesis
  proof (cases emb)
    case None
    with r2 i e show ?thesis by (auto simp: Let_def)
  next
    case (Some et)
    show ?thesis
    proof (cases "hasSeen seen (seenTypeId ift) = None")
      case True
      with r2 i e Some show ?thesis
        by (auto simp: Let_def bindR_eq_ok)
    next
      case False
      with r2 i e Some show ?thesis by (auto simp: Let_def)
    qed
  qed
qed

subsection \<open>The loop over the fields\<close>

lemma mapFields_Cons_ok:
  "mapFields cb (f # fs) st = ok (rows, st') \<longleftrightarrow>
     (\<exists>r st1 rs. cb f st = ok (r, st1) \<and> mapFields cb fs st1 = ok (rs, st') \<and> rows = r # rs)"
  by (cases st') (auto simp: bindR_eq_ok)


lemma mapFields_length:
  "mapFields cb fs st = ok (rows, st') \<Longrightarrow> length rows = length fs"
  by (induction fs arbitrary: st rows) (auto simp: mapFields_Cons_ok simp del: mapFields.simps(2))

lemma mapFields_offsets:
  assumes "mapFields (renderField rt inst ev ta pathId) fs (off, seen) = ok (rows, off', seen')"
    and "showOffsets ev"
  shows "off' = off + sum_list (map (\<lambda>r. tc_title (row_type r)) rows) \<and>
         (\<forall>i<length rows. row_offset (rows ! i) =
              Some (off + sum_list (map (\<lambda>r. tc_title (row_type r)) (take i rows)))) \<and>
         list_all2 (\<lambda>f row. \<exists>ift. inst (fieldParams ta f) = ok ift \<and>
                      tc_title (row_type row) = it_totalSize ift) fs rows"
  using assms(1)
proof (induction fs arbitrary: off seen rows)
  case Nil
  then show ?case by simp
next
  case (Cons f fs)
  from Cons.prems obtain r off1 seen1 rs where
    f: "renderField rt inst ev ta pathId f (off, seen) = ok (r, off1, seen1)" and
    rest: "mapFields (renderField rt inst ev ta pathId) fs (off1, seen1) = ok (rs, off', seen')" and
    rows: "rows = r # rs"
    unfolding mapFields_Cons_ok by auto
  from renderField_ok [OF f] assms(2) obtain ift where
    i: "inst (fieldParams ta f) = ok ift" and
    o1: "off1 = off + it_totalSize ift" and
    ro: "row_offset r = Some off" and
    rt: "row_type r = renderStructFieldType ift"
    by auto
  note IH = Cons.IH [OF rest]
  have t: "tc_title (row_type r) = it_totalSize ift" using rt by simp
  have a: "off' = off + sum_list (map (\<lambda>r. tc_title (row_type r)) rows)"
    using IH o1 t rows by simp
  have b: "row_offset (rows ! i) = Some (off + sum_list (map (\<lambda>r. tc_title (row_type r)) (take i rows)))"
    if "i < length rows" for i
  proof (cases i)
    case 0
    then show ?thesis using rows ro by simp
  next
    case (Suc k)
    with that rows have "k < length rs" by simp
    with IH have "row_offset (rs ! k) = Some (off1 + sum_list (map (\<lambda>r. tc_title (row_type r)) (take k rs)))"
      by blast
    then show ?thesis using Suc rows o1 t by simp
  qed
  have c: "list_all2 (\<lambda>f row. \<exists>ift. inst (fieldParams ta f) = ok ift \<and>
                      tc_title (row_type row) = it_totalSize ift) (f # fs) rows"
    using IH i t rows by auto
  from a b c show ?case by blast
qed

subsection \<open>Offsets\<close>

text \<open>
  Claim C7: in a struct table rendered with offsets enabled there is one row per field,
  in field order; the offset of a row is the sum of the sizes shown in the rows before it
  (so the first offset is 0 and nothing is added for alignment or padding), and the size
  shown in a row is the total size of that field's instantiation.
\<close>

theorem struct_offsets_accumulate:
  assumes "renderStructAsTable rt inst ev seen it pathId = ok (rows, seen')"
    and "showOffsets ev" and "td_fields (it_typeDef it) = Some fs"
  shows "length rows = length fs \<and>
         (\<forall>i<length rows. row_offset (rows ! i) =
              Some (sum_list (map (\<lambda>r. tc_title (row_type r)) (take i rows)))) \<and>
         list_all2 (\<lambda>f row. \<exists>ift. inst (fieldParams (it_typeArgs it) f) = ok ift \<and>
                      tc_title (row_type row) = it_totalSize ift) fs rows"
proof -
  from assms(1,3) obtain off' where
    m: "mapFields (renderField rt inst ev (it_typeArgs it) pathId) fs (0, seen) = ok (rows, off', seen')"
    by (auto simp: renderStructAsTable_def bindR_eq_ok)
  from mapFields_offsets [OF m assms(2)] mapFields_length [OF m] show ?thesis by simp
qed

text \<open>
  The struct with field sizes 4, 2, 1, 1 has the offsets 0, 4, 6, 7.
\<close>

theorem struct_offsets_accumulate_witness:
  "map (\<lambda>r. tc_title (row_type r))
     (fst (projr (the (renderStructAsTable (renderTypeAsTable 1 (exampleEnv ''Quad''))
        (instantiateType 1 (populate exampleDefs) ''Quad'') (exampleEnv ''Quad'') []
        (exampleEntry ''Quad'') (Some [[]]))))) = [4, 2, 1, 1]
   \<and> map row_offset
     (fst (projr (the (renderStructAsTable (renderTypeAsTable 1 (exampleEnv ''Quad''))
        (instantiateType 1 (populate exampleDefs) ''Quad'') (exampleEnv ''Quad'') []
        (exampleEntry ''Quad'') (Some [[]]))))) = [Some 0, Some 4, Some 6, Some 7]"
proof -
  let ?run = "renderStructAsTable (renderTypeAsTable 1 (exampleEnv ''Quad''))
        (instantiateType 1 (populate exampleDefs) ''Quad'') (exampleEnv ''Quad'') []
        (exampleEntry ''Quad'') (Some [[]])"
  let ?rows = "fst (projr (the ?run))" and ?seen = "snd (projr (the ?run))"
  have 1: "?run = ok (?rows, ?seen)" by code_simp
  have 2: "showOffsets (exampleEnv ''Quad'')" by code_simp
  have 3: "td_fields (it_typeDef (exampleEntry ''Quad'')) =
             Some [fld ''a'' ''uint32'', fld ''b'' ''uint16'', fld ''c'' ''uint8'', fld ''d'' ''byte'']"
    by code_simp
  have sizes: "map (\<lambda>r. tc_title (row_type r)) ?rows = [4, 2, 1, 1]" by code_simp
  from struct_offsets_accumulate [OF 1 2 3]
  have len: "length ?rows = 4"
    and off: "\<And>i. i < length ?rows \<Longrightarrow> row_offset (?rows ! i) =
              Some (sum_list (take i (map (\<lambda>r. tc_title (row_type r)) ?rows)))"
    by (simp_all add: take_map)
  have "map row_offset ?rows = [Some 0, Some 4, Some 6, Some 7]"
  proof (rule nth_equalityI)
    show "length (map row_offset ?rows) = length [Some 0, Some 4, Some 6, Some (7::int)]"
      using len by simp
  next
    fix i assume "i < length (map row_offset ?rows)"
    then have i: "i < 4" using len by simp
    then have "i = 0 \<or> i = 1 \<or> i = 2 \<or> i = 3" by arith
    then show "map row_offset ?rows ! i = [Some 0, Some 4, Some 6, Some 7] ! i"
      using off [of i] len unfolding sizes by (auto simp: numeral_3_eq_3 numeral_2_eq_2)
  qed
  with sizes show ?thesis by (intro conjI)
qed

subsection \<open>The cross-reference tracker\<close>
















text \<open>
  A signature can also be recorded before the first of two such fields is reached, by
  the nested table of an earlier field: then both fields link to that earlier path.
\<close>

lemma seen_in_an_earlier_field:
  "row_backref (exampleRows ''Outer'' ! 1) = Some [[], ''w'', ''x'']
   \<and> row_embedded (exampleRows ''Outer'' ! 1) = None
   \<and> row_backref (exampleRows ''Outer'' ! 2) = Some [[], ''w'', ''x'']
   \<and> row_embedded (exampleRows ''Outer'' ! 2) = None"
  by code_simp


subsection \<open>Unknown classes\<close>

text \<open>
  The \<^verbatim>\<open>default\<close> branch of the projector: any class other than the three it handles
  ends in a ReferenceError.
\<close>

lemma renderTypeAsTable_default:
  assumes "td_class (it_typeDef it) \<noteq> Some ''struct''"
    and "td_class (it_typeDef it) \<noteq> Some ''bitfield''"
    and "td_class (it_typeDef it) \<noteq> Some ''enum''"
  shows "renderTypeAsTable (Suc n) ev seen it pathId = throw (ReferenceError ''typeDef'')"
  using assms by (simp add: Let_def)

text \<open>
  Claim C8 fails on the code: projecting a definition of class \<open>union\<close> does not throw the
  diagnostic that names the class. The template of the message reads \<^verbatim>\<open>typeDef.class\<close>
  where only \<^verbatim>\<open>instantiatedType.typeDef\<close> exists, and the call ends in a ReferenceError.
\<close>

theorem unknown_class_reference_error:
  "renderStructYaml 2 ''en'' exampleDefs ''Union'' True None = throw (ReferenceError ''typeDef'')
   \<and> renderStructYaml 2 ''en'' exampleDefs ''Union'' True None \<noteq> throw (UnhandledTypeClass ''union'')"
  by code_simp

end
